theory Spec2Isabelle
  imports Main
begin

section \<open>JavaScript values\<close>

text \<open>
  The values that flow through \<^verbatim>\<open>api-client.js\<close>: request payloads, parsed response
  bodies, the token and the profile. Numbers are the integers; strings are sequences of
  8-bit code units; an object is the list of its own properties in insertion order.
\<close>

datatype jsval =
    JUndefined
  | JNull
  | JBool bool
  | JNum int
  | JStr string
  | JArr "jsval list"
  | JObj "(string \<times> jsval) list"

text \<open>ToBoolean, as applied by \<^verbatim>\<open>if (x)\<close> and \<^verbatim>\<open>x && y\<close>.\<close>

fun truthy :: "jsval \<Rightarrow> bool" where
  "truthy JUndefined = False"
| "truthy JNull = False"
| "truthy (JBool b) = b"
| "truthy (JNum n) = (n \<noteq> 0)"
| "truthy (JStr s) = (s \<noteq> [])"
| "truthy (JArr xs) = True"
| "truthy (JObj kvs) = True"

text \<open>
  Reading a property (\<^verbatim>\<open>result.access\<close>, \<^verbatim>\<open>result.user\<close>, \<^verbatim>\<open>currentUser.email\<close>).
  The source reads a property only behind a truthiness test of the receiver, so the
  receiver is never null or undefined; on a truthy primitive or an array none of the
  three names is defined and the read gives undefined.
\<close>

fun get_prop :: "jsval \<Rightarrow> string \<Rightarrow> jsval" where
  "get_prop (JObj kvs) k = (case map_of kvs k of Some v \<Rightarrow> v | None \<Rightarrow> JUndefined)"
| "get_prop v k = JUndefined"

subsection \<open>Decimal numerals\<close>

text \<open>The digits are the code units 48 to 57.\<close>

definition digit_char :: "nat \<Rightarrow> char" where
  "digit_char d = char_of (48 + d)"

fun show_nat :: "nat \<Rightarrow> string" where
  "show_nat n = (if n < 10 then [digit_char n] else show_nat (n div 10) @ [digit_char (n mod 10)])"

declare show_nat.simps [simp del]

definition show_int :: "int \<Rightarrow> string" where
  "show_int i = (if i < 0 then CHR ''-'' # show_nat (nat (- i)) else show_nat (nat i))"

fun join_comma :: "string list \<Rightarrow> string" where
  "join_comma [] = []"
| "join_comma [s] = s"
| "join_comma (s # t # ts) = s @ CHR '','' # join_comma (t # ts)"

subsection \<open>ToString\<close>

text \<open>
  The conversion done by a template literal \<^verbatim>\<open>`${x}`\<close>, by string concatenation and by
  \<^verbatim>\<open>localStorage.setItem\<close> on its value. It is given for plain data: an object that
  carries a \<^verbatim>\<open>toString\<close> or \<^verbatim>\<open>valueOf\<close> property of its own, on which the conversion can
  throw, and an integer beyond the 53 bits a number holds exactly are not modelled.
\<close>

fun js_toString :: "jsval \<Rightarrow> string"
  and elem_strings :: "jsval list \<Rightarrow> string list" where
  "js_toString JUndefined = ''undefined''"
| "js_toString JNull = ''null''"
| "js_toString (JBool b) = (if b then ''true'' else ''false'')"
| "js_toString (JNum n) = show_int n"
| "js_toString (JStr s) = s"
| "js_toString (JArr xs) = join_comma (elem_strings xs)"
| "js_toString (JObj kvs) = ''[object Object]''"
| "elem_strings [] = []"
| "elem_strings (x # xs) =
     (if x = JUndefined \<or> x = JNull then [] else js_toString x) # elem_strings xs"

subsection \<open>JSON.stringify\<close>

text \<open>Lower-case hexadecimal digits, as \<^verbatim>\<open>JSON.stringify\<close> writes them.\<close>

definition hex_char :: "nat \<Rightarrow> char" where
  "hex_char d = (if d < 10 then digit_char d else char_of (87 + d))"

text \<open>QuoteJSONString: the escapes of one code unit.\<close>

definition quote_char :: "char \<Rightarrow> string" where
  "quote_char c =
     (if c = CHR 0x22 then [CHR 0x5C, CHR 0x22]
      else if c = CHR 0x5C then [CHR 0x5C, CHR 0x5C]
      else if c = CHR 0x08 then [CHR 0x5C, CHR ''b'']
      else if c = CHR 0x0C then [CHR 0x5C, CHR ''f'']
      else if c = CHR 0x0A then [CHR 0x5C, CHR ''n'']
      else if c = CHR 0x0D then [CHR 0x5C, CHR ''r'']
      else if c = CHR 0x09 then [CHR 0x5C, CHR ''t'']
      else if (of_char c :: nat) < 32
        then [CHR 0x5C, CHR ''u'', CHR ''0'', CHR ''0'',
              hex_char (of_char c div 16), hex_char (of_char c mod 16)]
      else [c])"

definition quote_string :: "string \<Rightarrow> string" where
  "quote_string s = CHR 0x22 # concat (map quote_char s) @ [CHR 0x22]"

text \<open>
  SerializeJSONProperty on a value that is not undefined at top level: inside an array
  undefined is written as null, inside an object a property whose value is undefined is
  left out.
\<close>

fun ser :: "jsval \<Rightarrow> string"
  and ser_elems :: "jsval list \<Rightarrow> string list"
  and ser_props :: "(string \<times> jsval) list \<Rightarrow> string list" where
  "ser JUndefined = ''null''"
| "ser JNull = ''null''"
| "ser (JBool b) = (if b then ''true'' else ''false'')"
| "ser (JNum n) = show_int n"
| "ser (JStr s) = quote_string s"
| "ser (JArr xs) = CHR ''['' # join_comma (ser_elems xs) @ '']''"
| "ser (JObj kvs) = CHR ''{'' # join_comma (ser_props kvs) @ ''}''"
| "ser_elems [] = []"
| "ser_elems (x # xs) = ser x # ser_elems xs"
| "ser_props [] = []"
| "ser_props ((k, v) # kvs) =
     (if v = JUndefined then ser_props kvs
      else (quote_string k @ CHR '':'' # ser v) # ser_props kvs)"

text \<open>\<^verbatim>\<open>JSON.stringify(undefined)\<close> is undefined, not a string.\<close>

definition JSON_stringify :: "jsval \<Rightarrow> jsval" where
  "JSON_stringify v = (if v = JUndefined then JUndefined else JStr (ser v))"

text \<open>
  An exception object: its name and its message (the catch block of \<^verbatim>\<open>apiCall\<close> reads
  \<^verbatim>\<open>error.message\<close>).
\<close>

datatype js_error = JsError (err_name: string) (message: string)

subsection \<open>JSON.parse\<close>

text \<open>
  A recursive-descent reader of JSON text. A result is the value read and the text left,
  a syntax error, or \<open>PBeyond\<close>: the text leaves what the value type above can express
  (a number with a fraction or an exponent, a \<^verbatim>\<open>\u\<close> escape above \<^verbatim>\<open>00ff\<close>), and the
  model says nothing about it. Properties are kept in the order of the text; where a
  name is repeated the last value wins, at the place of the first.
\<close>

datatype 'a presult = POk 'a string | PSyntax | PBeyond

definition pbind :: "'a presult \<Rightarrow> ('a \<Rightarrow> string \<Rightarrow> 'b presult) \<Rightarrow> 'b presult" where
  "pbind r f = (case r of POk a rest \<Rightarrow> f a rest | PSyntax \<Rightarrow> PSyntax | PBeyond \<Rightarrow> PBeyond)"

definition is_ws :: "char \<Rightarrow> bool" where
  "is_ws c = (c = CHR '' '' \<or> c = CHR 0x09 \<or> c = CHR 0x0A \<or> c = CHR 0x0D)"

fun skip_ws :: "string \<Rightarrow> string" where
  "skip_ws [] = []"
| "skip_ws (c # cs) = (if is_ws c then skip_ws cs else c # cs)"

definition digit_val :: "char \<Rightarrow> nat option" where
  "digit_val c =
     (let n = (of_char c :: nat) in if 48 \<le> n \<and> n \<le> 57 then Some (n - 48) else None)"

text \<open>Hexadecimal digits in either case: 0 to 9, a to f (97 to 102), A to F (65 to 70).\<close>

definition hex_val :: "char \<Rightarrow> nat option" where
  "hex_val c =
     (let n = (of_char c :: nat)
      in if 48 \<le> n \<and> n \<le> 57 then Some (n - 48)
         else if 97 \<le> n \<and> n \<le> 102 then Some (n - 87)
         else if 65 \<le> n \<and> n \<le> 70 then Some (n - 55)
         else None)"

text \<open>The character a two-character escape stands for.\<close>

definition unescape :: "char \<Rightarrow> char option" where
  "unescape e =
     (if e = CHR 0x22 then Some (CHR 0x22)
      else if e = CHR 0x5C then Some (CHR 0x5C)
      else if e = CHR ''/'' then Some (CHR ''/'')
      else if e = CHR ''b'' then Some (CHR 0x08)
      else if e = CHR ''f'' then Some (CHR 0x0C)
      else if e = CHR ''n'' then Some (CHR 0x0A)
      else if e = CHR ''r'' then Some (CHR 0x0D)
      else if e = CHR ''t'' then Some (CHR 0x09)
      else None)"

definition pcons :: "char \<Rightarrow> string presult \<Rightarrow> string presult" where
  "pcons c r = pbind r (\<lambda>s rest. POk (c # s) rest)"

text \<open>The characters of a string after its opening quote, up to the closing quote.\<close>

fun parse_chars :: "string \<Rightarrow> string presult" where
  "parse_chars [] = PSyntax"
| "parse_chars (c # cs) =
     (if c = CHR 0x22 then POk [] cs
      else if c = CHR 0x5C then
        (case cs of
           [] \<Rightarrow> PSyntax
         | e # es \<Rightarrow>
             if e = CHR ''u'' then
               (case es of
                  h1 # h2 # h3 # h4 # r \<Rightarrow>
                    (case (hex_val h1, hex_val h2, hex_val h3, hex_val h4) of
                       (Some a, Some b, Some x, Some y) \<Rightarrow>
                         if a = 0 \<and> b = 0 then pcons (char_of (16 * x + y)) (parse_chars r)
                         else PBeyond
                     | _ \<Rightarrow> PSyntax)
                | _ \<Rightarrow> PSyntax)
             else
               (case unescape e of
                  Some ch \<Rightarrow> pcons ch (parse_chars es)
                | None \<Rightarrow> PSyntax))
      else if (of_char c :: nat) < 32 then PSyntax
      else pcons c (parse_chars cs))"

fun read_digits :: "string \<Rightarrow> nat \<Rightarrow> nat \<times> string" where
  "read_digits [] acc = (acc, [])"
| "read_digits (c # cs) acc =
     (case digit_val c of
        None \<Rightarrow> (acc, c # cs)
      | Some d \<Rightarrow> read_digits cs (10 * acc + d))"

text \<open>After the integer part: a fraction or an exponent is not modelled.\<close>

definition number_end :: "nat \<Rightarrow> string \<Rightarrow> nat presult" where
  "number_end n rest =
     (case rest of
        [] \<Rightarrow> POk n []
      | c # cs \<Rightarrow> if c = CHR ''.'' \<or> c = CHR ''e'' \<or> c = CHR ''E'' then PBeyond else POk n rest)"

text \<open>The integer part: a single zero, or a nonzero digit and the digits after it.\<close>

definition parse_nat :: "string \<Rightarrow> nat presult" where
  "parse_nat s =
     (case s of
        [] \<Rightarrow> PSyntax
      | c # cs \<Rightarrow>
          (case digit_val c of
             None \<Rightarrow> PSyntax
           | Some d \<Rightarrow>
               if d = 0 then
                 (case cs of
                    [] \<Rightarrow> POk 0 []
                  | c' # cs' \<Rightarrow> if digit_val c' \<noteq> None then PSyntax else number_end 0 cs)
               else (case read_digits cs d of (n, rest) \<Rightarrow> number_end n rest)))"

definition parse_number :: "string \<Rightarrow> jsval presult" where
  "parse_number s =
     (case s of
        [] \<Rightarrow> PSyntax
      | c # cs \<Rightarrow>
          if c = CHR ''-'' then pbind (parse_nat cs) (\<lambda>n rest. POk (JNum (- int n)) rest)
          else pbind (parse_nat s) (\<lambda>n rest. POk (JNum (int n)) rest))"

definition literal :: "string \<Rightarrow> jsval \<Rightarrow> string \<Rightarrow> jsval presult" where
  "literal word v s =
     (if take (length word) s = word then POk v (drop (length word) s) else PSyntax)"

text \<open>Defining a property on the object under construction.\<close>

fun define_prop :: "(string \<times> jsval) list \<Rightarrow> string \<times> jsval \<Rightarrow> (string \<times> jsval) list" where
  "define_prop [] kv = [kv]"
| "define_prop (p # ps) kv = (if fst p = fst kv then kv # ps else p # define_prop ps kv)"

definition mk_object :: "(string \<times> jsval) list \<Rightarrow> jsval" where
  "mk_object kvs = JObj (foldl define_prop [] kvs)"

text \<open>
  The first argument bounds the depth of the descent; \<open>JSON_parse\<close> below starts it high
  enough for its text. \<open>parse_elems\<close> reads the elements of an array that has at least
  one, up to the closing bracket; \<open>parse_members\<close> likewise for an object.
\<close>

fun parse_value :: "nat \<Rightarrow> string \<Rightarrow> jsval presult"
  and parse_elems :: "nat \<Rightarrow> string \<Rightarrow> jsval list presult"
  and parse_members :: "nat \<Rightarrow> string \<Rightarrow> (string \<times> jsval) list presult" where
  "parse_value 0 s = PBeyond"
| "parse_value (Suc n) s =
     (case skip_ws s of
        [] \<Rightarrow> PSyntax
      | c # cs \<Rightarrow>
          if c = CHR ''{'' then
            (case skip_ws cs of
               [] \<Rightarrow> PSyntax
             | d # ds \<Rightarrow>
                 if d = CHR ''}'' then POk (JObj []) ds
                 else pbind (parse_members n (d # ds)) (\<lambda>kvs rest. POk (mk_object kvs) rest))
          else if c = CHR ''['' then
            (case skip_ws cs of
               [] \<Rightarrow> PSyntax
             | d # ds \<Rightarrow>
                 if d = CHR '']'' then POk (JArr []) ds
                 else pbind (parse_elems n (d # ds)) (\<lambda>vs rest. POk (JArr vs) rest))
          else if c = CHR 0x22 then pbind (parse_chars cs) (\<lambda>str rest. POk (JStr str) rest)
          else if c = CHR ''n'' then literal ''null'' JNull (c # cs)
          else if c = CHR ''t'' then literal ''true'' (JBool True) (c # cs)
          else if c = CHR ''f'' then literal ''false'' (JBool False) (c # cs)
          else parse_number (c # cs))"
| "parse_elems 0 s = PBeyond"
| "parse_elems (Suc n) s =
     pbind (parse_value n s) (\<lambda>v rest.
       case skip_ws rest of
         [] \<Rightarrow> PSyntax
       | c # cs \<Rightarrow>
           if c = CHR '','' then pbind (parse_elems n cs) (\<lambda>vs rest'. POk (v # vs) rest')
           else if c = CHR '']'' then POk [v] cs
           else PSyntax)"
| "parse_members 0 s = PBeyond"
| "parse_members (Suc n) s =
     (case skip_ws s of
        [] \<Rightarrow> PSyntax
      | q # cs \<Rightarrow>
          if q \<noteq> CHR 0x22 then PSyntax
          else pbind (parse_chars cs) (\<lambda>k rest.
            case skip_ws rest of
              [] \<Rightarrow> PSyntax
            | c # cs' \<Rightarrow>
                if c \<noteq> CHR '':'' then PSyntax
                else pbind (parse_value n cs') (\<lambda>v rest'.
                  case skip_ws rest' of
                    [] \<Rightarrow> PSyntax
                  | c' # cs'' \<Rightarrow>
                      if c' = CHR '','' then
                        pbind (parse_members n cs'') (\<lambda>kvs rest''. POk ((k, v) # kvs) rest'')
                      else if c' = CHR ''}'' then POk [(k, v)] cs''
                      else PSyntax)))"

definition syntax_error :: js_error where
  "syntax_error = JsError ''SyntaxError'' ''JSON.parse: the text is not valid JSON''"

definition not_modelled :: js_error where
  "not_modelled = JsError ''(not modelled)'' ''JSON text outside the modelled values''"

text \<open>
  \<^verbatim>\<open>JSON.parse(text)\<close>: one value, with white space around it and nothing else. The
  wording of the SyntaxError message differs between engines and nothing in the file
  reads it.
\<close>

definition JSON_parse :: "string \<Rightarrow> js_error + jsval" where
  "JSON_parse s =
     (case parse_value (Suc (2 * length s)) s of
        POk v rest \<Rightarrow> if skip_ws rest = [] then Inr v else Inl syntax_error
      | PSyntax \<Rightarrow> Inl syntax_error
      | PBeyond \<Rightarrow> Inl not_modelled)"

text \<open>
  The values \<^verbatim>\<open>response.json()\<close> and \<^verbatim>\<open>JSON.parse\<close> produce: no undefined anywhere, and
  no property name twice in an object.
\<close>

fun json_value :: "jsval \<Rightarrow> bool"
  and json_values :: "jsval list \<Rightarrow> bool"
  and json_props :: "(string \<times> jsval) list \<Rightarrow> bool" where
  "json_value JUndefined = False"
| "json_value JNull = True"
| "json_value (JBool b) = True"
| "json_value (JNum n) = True"
| "json_value (JStr s) = True"
| "json_value (JArr xs) = json_values xs"
| "json_value (JObj kvs) = (distinct (map fst kvs) \<and> json_props kvs)"
| "json_values [] = True"
| "json_values (x # xs) = (json_value x \<and> json_values xs)"
| "json_props [] = True"
| "json_props ((k, v) # kvs) = (json_value v \<and> json_props kvs)"

section \<open>The page: session, storage, DOM, network\<close>

text \<open>
  How a call ends: it returns (an async function's promise is fulfilled) or it throws
  (the promise is rejected). The state reached is kept in both cases.
\<close>

datatype 'a completion = Normal 'a | Throw js_error

text \<open>
  What \<^verbatim>\<open>fetch\<close> followed by \<^verbatim>\<open>response.json()\<close> gives on one call. \<open>Rejected e\<close>: the fetch
  promise rejects (network error, DNS failure). \<open>Responded status js\<close>: a response with
  that status arrives, and \<open>js\<close> is what \<^verbatim>\<open>response.json()\<close> gives: the parsed body, or
  the error it rejects with when the body is not JSON.
\<close>

datatype fetch_result =
    Rejected js_error
  | Responded nat "js_error + jsval"

text \<open>\<^verbatim>\<open>response.ok\<close>: the status is in the range 200 to 299.\<close>

definition ok :: "nat \<Rightarrow> bool" where
  "ok status = (200 \<le> status \<and> status \<le> 299)"

text \<open>
  The arguments of one \<^verbatim>\<open>fetch(url, options)\<close> call; \<open>http_method\<close> is the \<^verbatim>\<open>method\<close>
  property of the options.
\<close>

record request =
  url :: string
  http_method :: string
  headers :: "(string \<times> string) list"
  body :: "jsval option"

datatype log_arg = LStr string | LVal jsval | LErr js_error

text \<open>
  The module variables \<^verbatim>\<open>currentUser\<close> and \<^verbatim>\<open>authToken\<close>, and the parts of the browser the
  file touches: \<^verbatim>\<open>localStorage\<close>, \<^verbatim>\<open>window.location.href\<close>, the text of the element with
  id \<^verbatim>\<open>logoutBtn\<close> (None when the page has no such element), the calls of
  \<^verbatim>\<open>console.error\<close> and of \<^verbatim>\<open>alert\<close>, and the requests handed to \<^verbatim>\<open>fetch\<close>, oldest first.
  A call of one of the functions below is taken to run to its end with no other handler
  in between its awaits, and \<^verbatim>\<open>setItem\<close> is taken to find room in storage.
\<close>

record state =
  currentUser :: jsval
  authToken :: jsval
  localStorage :: "string \<rightharpoonup> string"
  location_href :: string
  logoutBtn :: "string option"
  console :: "log_arg list list"
  alerts :: "string list"
  fetched :: "request list"

definition API_BASE :: string where
  "API_BASE = ''/api''"

definition getItem :: "string \<Rightarrow> state \<Rightarrow> jsval" where
  "getItem k st = (case localStorage st k of None \<Rightarrow> JNull | Some s \<Rightarrow> JStr s)"

definition setItem :: "string \<Rightarrow> jsval \<Rightarrow> state \<Rightarrow> state" where
  "setItem k v st = st\<lparr>localStorage := (localStorage st)(k \<mapsto> js_toString v)\<rparr>"

definition removeItem :: "string \<Rightarrow> state \<Rightarrow> state" where
  "removeItem k st = st\<lparr>localStorage := (localStorage st)(k := None)\<rparr>"

section \<open>Session manager\<close>

definition logoutUser :: "state \<Rightarrow> state" where
  "logoutUser st =
     removeItem ''user'' (removeItem ''access_token''
       (st\<lparr>authToken := JNull, currentUser := JNull\<rparr>))"

definition updateUIAfterLogin :: "state \<Rightarrow> state" where
  "updateUIAfterLogin st =
     (case logoutBtn st of
        None \<Rightarrow> st
      | Some txt \<Rightarrow>
          if truthy (currentUser st)
          then st\<lparr>logoutBtn :=
                 Some (''Logout ('' @ js_toString (get_prop (currentUser st) ''email'') @ '')'')\<rparr>
          else st)"

text \<open>
  Lines 10 to 18. A throw of \<^verbatim>\<open>JSON.parse\<close> leaves through \<^verbatim>\<open>initAuth\<close>. Where \<open>JSON_parse\<close>
  answers \<open>not_modelled\<close> the stored text has no value in this model, and what is said
  about \<^verbatim>\<open>initAuth\<close> below leaves that case out.
\<close>

definition initAuth :: "state \<Rightarrow> unit completion \<times> state" where
  "initAuth st =
     (let token = getItem ''access_token'' st;
          user = getItem ''user'' st
      in if truthy token \<and> truthy user
         then (let st1 = st\<lparr>authToken := token\<rparr>
               in case JSON_parse (js_toString user) of
                    Inl e \<Rightarrow> (Throw e, st1)
                  | Inr v \<Rightarrow> (Normal (), updateUIAfterLogin (st1\<lparr>currentUser := v\<rparr>)))
         else (Normal (), st))"

text \<open>
  Loading a page that includes the file: lines 6 and 7 set both module variables to
  null, and line 210 runs \<^verbatim>\<open>initAuth\<close> once the document is ready. Storage outlives the
  page; \<open>btn\<close> is the logout control of the page being loaded.
\<close>

definition page_load :: "string option \<Rightarrow> state \<Rightarrow> unit completion \<times> state" where
  "page_load btn st = initAuth (st\<lparr>currentUser := JNull, authToken := JNull, logoutBtn := btn\<rparr>)"

section \<open>Generic request function\<close>

text \<open>Lines 21 to 34 of the source: the options object and the URL given to fetch.\<close>

definition build_request :: "string \<Rightarrow> string \<Rightarrow> jsval \<Rightarrow> state \<Rightarrow> request" where
  "build_request endpoint meth data st =
     \<lparr> url = API_BASE @ endpoint,
       http_method = meth,
       headers = (''Content-Type'', ''application/json'') #
                 (if truthy (authToken st)
                  then [(''Authorization'', ''Bearer '' @ js_toString (authToken st))]
                  else []),
       body = (if truthy data then Some (JSON_stringify data) else None) \<rparr>"

text \<open>The body of the try block, lines 37 to 51; a rejected await is a throw.\<close>

definition apiCall_try :: "fetch_result \<Rightarrow> state \<Rightarrow> jsval completion \<times> state" where
  "apiCall_try fr st =
     (case fr of
        Rejected e \<Rightarrow> (Throw e, st)
      | Responded status js \<Rightarrow>
          (case js of
             Inl e \<Rightarrow> (Throw e, st)
           | Inr result \<Rightarrow>
               if status = 401
               then (Normal JNull, (logoutUser st)\<lparr>location_href := ''/login.html''\<rparr>)
               else if \<not> ok status
               then (Normal JNull,
                     st\<lparr>console := console st @ [[LStr ''API Error:'', LVal result]]\<rparr>)
               else (Normal result, st)))"

text \<open>
  \<^verbatim>\<open>apiCall(endpoint, method = 'GET', data = null)\<close>. The first argument is what fetch
  gives on this call. A caller that leaves \<^verbatim>\<open>method\<close> and \<^verbatim>\<open>data\<close> out is modelled with
  \<open>''GET''\<close> and \<open>JNull\<close>; undefined passed for \<^verbatim>\<open>data\<close> takes the default as well.
\<close>

definition apiCall ::
  "fetch_result \<Rightarrow> string \<Rightarrow> string \<Rightarrow> jsval \<Rightarrow> state \<Rightarrow> jsval completion \<times> state" where
  "apiCall fr endpoint meth data0 st =
     (let data = (if data0 = JUndefined then JNull else data0);
          st1 = st\<lparr>fetched := fetched st @ [build_request endpoint meth data st]\<rparr>
      in case apiCall_try fr st1 of
           (Throw error, st2) \<Rightarrow>
             (Normal JNull,
              st2\<lparr>console := console st2 @ [[LStr ''Fetch Error:'', LErr error]],
                  alerts := alerts st2 @ [''Connection error: '' @ message error]\<rparr>)
         | (Normal v, st2) \<Rightarrow> (Normal v, st2))"

section \<open>Authentication endpoints\<close>

definition register ::
  "fetch_result \<Rightarrow> jsval \<Rightarrow> jsval \<Rightarrow> jsval \<Rightarrow> jsval \<Rightarrow> state \<Rightarrow> jsval completion \<times> state" where
  "register fr email password name role st =
     (case apiCall fr ''/auth/register/'' ''POST''
             (JObj [(''email'', email), (''password'', password), (''name'', name),
                    (''role'', role)]) st of
        (Throw e, st1) \<Rightarrow> (Throw e, st1)
      | (Normal result, st1) \<Rightarrow>
          if truthy result \<and> truthy (get_prop result ''access'')
          then (let st2 = st1\<lparr>authToken := get_prop result ''access''\<rparr>;
                    st3 = st2\<lparr>currentUser := get_prop result ''user''\<rparr>;
                    st4 = setItem ''access_token'' (authToken st3) st3;
                    st5 = setItem ''user'' (JSON_stringify (currentUser st4)) st4
                in (Normal (JBool True), st5))
          else (Normal (JBool False), st1))"

definition login ::
  "fetch_result \<Rightarrow> jsval \<Rightarrow> jsval \<Rightarrow> state \<Rightarrow> jsval completion \<times> state" where
  "login fr email password st =
     (case apiCall fr ''/auth/login/'' ''POST''
             (JObj [(''email'', email), (''password'', password)]) st of
        (Throw e, st1) \<Rightarrow> (Throw e, st1)
      | (Normal result, st1) \<Rightarrow>
          if truthy result \<and> truthy (get_prop result ''access'')
          then (let st2 = st1\<lparr>authToken := get_prop result ''access''\<rparr>;
                    st3 = st2\<lparr>currentUser := get_prop result ''user''\<rparr>;
                    st4 = setItem ''access_token'' (authToken st3) st3;
                    st5 = setItem ''user'' (JSON_stringify (currentUser st4)) st4
                in (Normal (JBool True), st5))
          else (Normal (JBool False), st1))"

section \<open>Endpoint wrappers\<close>

type_synonym api_result = "jsval completion \<times> state"

subsection \<open>Hostel endpoints\<close>

definition getAllHostels :: "fetch_result \<Rightarrow> state \<Rightarrow> api_result" where
  "getAllHostels fr st = apiCall fr ''/hostels/'' ''GET'' JNull st"

definition getHostelDetail :: "fetch_result \<Rightarrow> jsval \<Rightarrow> state \<Rightarrow> api_result" where
  "getHostelDetail fr hostelId st =
     apiCall fr (''/hostels/'' @ js_toString hostelId @ ''/'') ''GET'' JNull st"

definition addHostel :: "fetch_result \<Rightarrow> jsval \<Rightarrow> state \<Rightarrow> api_result" where
  "addHostel fr data st = apiCall fr ''/hostels/add/'' ''POST'' data st"

definition updateHostel :: "fetch_result \<Rightarrow> jsval \<Rightarrow> jsval \<Rightarrow> state \<Rightarrow> api_result" where
  "updateHostel fr hostelId data st =
     apiCall fr (''/hostels/'' @ js_toString hostelId @ ''/update/'') ''PUT'' data st"

definition getMyHostels :: "fetch_result \<Rightarrow> state \<Rightarrow> api_result" where
  "getMyHostels fr st = apiCall fr ''/hostels/my/'' ''GET'' JNull st"

subsection \<open>Room endpoints\<close>

definition getHostelRooms :: "fetch_result \<Rightarrow> jsval \<Rightarrow> state \<Rightarrow> api_result" where
  "getHostelRooms fr hostelId st =
     apiCall fr (''/rooms/hostel/'' @ js_toString hostelId @ ''/'') ''GET'' JNull st"

definition addRoom :: "fetch_result \<Rightarrow> jsval \<Rightarrow> state \<Rightarrow> api_result" where
  "addRoom fr data st = apiCall fr ''/rooms/add/'' ''POST'' data st"

definition updateRoom :: "fetch_result \<Rightarrow> jsval \<Rightarrow> jsval \<Rightarrow> state \<Rightarrow> api_result" where
  "updateRoom fr roomId data st =
     apiCall fr (''/rooms/'' @ js_toString roomId @ ''/update/'') ''PUT'' data st"

subsection \<open>Booking endpoints\<close>

definition bookHostel :: "fetch_result \<Rightarrow> jsval \<Rightarrow> state \<Rightarrow> api_result" where
  "bookHostel fr data st = apiCall fr ''/bookings/book/'' ''POST'' data st"

definition getMyBookings :: "fetch_result \<Rightarrow> state \<Rightarrow> api_result" where
  "getMyBookings fr st = apiCall fr ''/bookings/my/'' ''GET'' JNull st"

definition getOwnerBookings :: "fetch_result \<Rightarrow> jsval \<Rightarrow> state \<Rightarrow> api_result" where
  "getOwnerBookings fr hostelId st =
     apiCall fr (''/bookings/owner/'' @ js_toString hostelId @ ''/'') ''GET'' JNull st"

definition approveBooking :: "fetch_result \<Rightarrow> jsval \<Rightarrow> jsval \<Rightarrow> state \<Rightarrow> api_result" where
  "approveBooking fr bookingId data st =
     apiCall fr (''/bookings/'' @ js_toString bookingId @ ''/approve/'') ''POST'' data st"

definition rejectBooking :: "fetch_result \<Rightarrow> jsval \<Rightarrow> jsval \<Rightarrow> state \<Rightarrow> api_result" where
  "rejectBooking fr bookingId data st =
     apiCall fr (''/bookings/'' @ js_toString bookingId @ ''/reject/'') ''POST'' data st"

subsection \<open>Issue endpoints\<close>

definition reportIssue :: "fetch_result \<Rightarrow> jsval \<Rightarrow> state \<Rightarrow> api_result" where
  "reportIssue fr data st = apiCall fr ''/issues/report/'' ''POST'' data st"

definition getOwnerIssues :: "fetch_result \<Rightarrow> jsval \<Rightarrow> state \<Rightarrow> api_result" where
  "getOwnerIssues fr hostelId st =
     apiCall fr (''/issues/owner/'' @ js_toString hostelId @ ''/'') ''GET'' JNull st"

definition resolveIssue :: "fetch_result \<Rightarrow> jsval \<Rightarrow> jsval \<Rightarrow> state \<Rightarrow> api_result" where
  "resolveIssue fr issueId data st =
     apiCall fr (''/issues/'' @ js_toString issueId @ ''/resolve/'') ''POST'' data st"

subsection \<open>Notice endpoints\<close>

definition sendNotice :: "fetch_result \<Rightarrow> jsval \<Rightarrow> state \<Rightarrow> api_result" where
  "sendNotice fr data st = apiCall fr ''/notices/send/'' ''POST'' data st"

definition getNotices :: "fetch_result \<Rightarrow> jsval \<Rightarrow> state \<Rightarrow> api_result" where
  "getNotices fr hostelId st =
     apiCall fr (''/notices/'' @ js_toString hostelId @ ''/'') ''GET'' JNull st"

subsection \<open>Payment endpoints\<close>

definition getMyPayments :: "fetch_result \<Rightarrow> state \<Rightarrow> api_result" where
  "getMyPayments fr st = apiCall fr ''/payments/my/'' ''GET'' JNull st"

definition makePayment :: "fetch_result \<Rightarrow> jsval \<Rightarrow> state \<Rightarrow> api_result" where
  "makePayment fr data st = apiCall fr ''/payments/make/'' ''POST'' data st"

definition recordPayment :: "fetch_result \<Rightarrow> jsval \<Rightarrow> state \<Rightarrow> api_result" where
  "recordPayment fr data st = apiCall fr ''/payments/record/'' ''POST'' data st"

definition getHostelPayments :: "fetch_result \<Rightarrow> jsval \<Rightarrow> state \<Rightarrow> api_result" where
  "getHostelPayments fr hostelId st =
     apiCall fr (''/payments/hostel/'' @ js_toString hostelId @ ''/'') ''GET'' JNull st"

subsection \<open>Dashboard endpoints\<close>

definition getStudentDashboard :: "fetch_result \<Rightarrow> state \<Rightarrow> api_result" where
  "getStudentDashboard fr st = apiCall fr ''/dashboard/student/'' ''GET'' JNull st"

definition getOwnerDashboard :: "fetch_result \<Rightarrow> state \<Rightarrow> api_result" where
  "getOwnerDashboard fr st = apiCall fr ''/dashboard/owner/'' ''GET'' JNull st"

definition getHostelStats :: "fetch_result \<Rightarrow> jsval \<Rightarrow> state \<Rightarrow> api_result" where
  "getHostelStats fr hostelId st =
     apiCall fr (''/analytics/hostel/'' @ js_toString hostelId @ ''/'') ''GET'' JNull st"

section \<open>The wrappers as one family\<close>

text \<open>
  One constructor for each of the 25 wrappers from \<^verbatim>\<open>getAllHostels\<close> to \<^verbatim>\<open>getHostelStats\<close>,
  carrying the arguments of the call, so that a statement can range over all of them.
\<close>

datatype wrapper_call =
    GetAllHostels
  | GetHostelDetail jsval
  | AddHostel jsval
  | UpdateHostel jsval jsval
  | GetMyHostels
  | GetHostelRooms jsval
  | AddRoom jsval
  | UpdateRoom jsval jsval
  | BookHostel jsval
  | GetMyBookings
  | GetOwnerBookings jsval
  | ApproveBooking jsval jsval
  | RejectBooking jsval jsval
  | ReportIssue jsval
  | GetOwnerIssues jsval
  | ResolveIssue jsval jsval
  | SendNotice jsval
  | GetNotices jsval
  | GetMyPayments
  | MakePayment jsval
  | RecordPayment jsval
  | GetHostelPayments jsval
  | GetStudentDashboard
  | GetOwnerDashboard
  | GetHostelStats jsval

fun call_wrapper :: "fetch_result \<Rightarrow> wrapper_call \<Rightarrow> state \<Rightarrow> api_result" where
  "call_wrapper fr GetAllHostels st = getAllHostels fr st"
| "call_wrapper fr (GetHostelDetail i) st = getHostelDetail fr i st"
| "call_wrapper fr (AddHostel d) st = addHostel fr d st"
| "call_wrapper fr (UpdateHostel i d) st = updateHostel fr i d st"
| "call_wrapper fr GetMyHostels st = getMyHostels fr st"
| "call_wrapper fr (GetHostelRooms i) st = getHostelRooms fr i st"
| "call_wrapper fr (AddRoom d) st = addRoom fr d st"
| "call_wrapper fr (UpdateRoom i d) st = updateRoom fr i d st"
| "call_wrapper fr (BookHostel d) st = bookHostel fr d st"
| "call_wrapper fr GetMyBookings st = getMyBookings fr st"
| "call_wrapper fr (GetOwnerBookings i) st = getOwnerBookings fr i st"
| "call_wrapper fr (ApproveBooking i d) st = approveBooking fr i d st"
| "call_wrapper fr (RejectBooking i d) st = rejectBooking fr i d st"
| "call_wrapper fr (ReportIssue d) st = reportIssue fr d st"
| "call_wrapper fr (GetOwnerIssues i) st = getOwnerIssues fr i st"
| "call_wrapper fr (ResolveIssue i d) st = resolveIssue fr i d st"
| "call_wrapper fr (SendNotice d) st = sendNotice fr d st"
| "call_wrapper fr (GetNotices i) st = getNotices fr i st"
| "call_wrapper fr GetMyPayments st = getMyPayments fr st"
| "call_wrapper fr (MakePayment d) st = makePayment fr d st"
| "call_wrapper fr (RecordPayment d) st = recordPayment fr d st"
| "call_wrapper fr (GetHostelPayments i) st = getHostelPayments fr i st"
| "call_wrapper fr GetStudentDashboard st = getStudentDashboard fr st"
| "call_wrapper fr GetOwnerDashboard st = getOwnerDashboard fr st"
| "call_wrapper fr (GetHostelStats i) st = getHostelStats fr i st"

text \<open>
  The inventory of section 4.3 of the specification, row by row: the method and the
  path of each operation, with the path parameter already written into the path.
\<close>

fun spec_method :: "wrapper_call \<Rightarrow> string" where
  "spec_method GetAllHostels = ''GET''"
| "spec_method (GetHostelDetail i) = ''GET''"
| "spec_method (AddHostel d) = ''POST''"
| "spec_method (UpdateHostel i d) = ''PUT''"
| "spec_method GetMyHostels = ''GET''"
| "spec_method (GetHostelRooms i) = ''GET''"
| "spec_method (AddRoom d) = ''POST''"
| "spec_method (UpdateRoom i d) = ''PUT''"
| "spec_method (BookHostel d) = ''POST''"
| "spec_method GetMyBookings = ''GET''"
| "spec_method (GetOwnerBookings i) = ''GET''"
| "spec_method (ApproveBooking i d) = ''POST''"
| "spec_method (RejectBooking i d) = ''POST''"
| "spec_method (ReportIssue d) = ''POST''"
| "spec_method (GetOwnerIssues i) = ''GET''"
| "spec_method (ResolveIssue i d) = ''POST''"
| "spec_method (SendNotice d) = ''POST''"
| "spec_method (GetNotices i) = ''GET''"
| "spec_method GetMyPayments = ''GET''"
| "spec_method (MakePayment d) = ''POST''"
| "spec_method (RecordPayment d) = ''POST''"
| "spec_method (GetHostelPayments i) = ''GET''"
| "spec_method GetStudentDashboard = ''GET''"
| "spec_method GetOwnerDashboard = ''GET''"
| "spec_method (GetHostelStats i) = ''GET''"

fun spec_path :: "wrapper_call \<Rightarrow> string" where
  "spec_path GetAllHostels = ''/hostels/''"
| "spec_path (GetHostelDetail i) = ''/hostels/'' @ js_toString i @ ''/''"
| "spec_path (AddHostel d) = ''/hostels/add/''"
| "spec_path (UpdateHostel i d) = ''/hostels/'' @ js_toString i @ ''/update/''"
| "spec_path GetMyHostels = ''/hostels/my/''"
| "spec_path (GetHostelRooms i) = ''/rooms/hostel/'' @ js_toString i @ ''/''"
| "spec_path (AddRoom d) = ''/rooms/add/''"
| "spec_path (UpdateRoom i d) = ''/rooms/'' @ js_toString i @ ''/update/''"
| "spec_path (BookHostel d) = ''/bookings/book/''"
| "spec_path GetMyBookings = ''/bookings/my/''"
| "spec_path (GetOwnerBookings i) = ''/bookings/owner/'' @ js_toString i @ ''/''"
| "spec_path (ApproveBooking i d) = ''/bookings/'' @ js_toString i @ ''/approve/''"
| "spec_path (RejectBooking i d) = ''/bookings/'' @ js_toString i @ ''/reject/''"
| "spec_path (ReportIssue d) = ''/issues/report/''"
| "spec_path (GetOwnerIssues i) = ''/issues/owner/'' @ js_toString i @ ''/''"
| "spec_path (ResolveIssue i d) = ''/issues/'' @ js_toString i @ ''/resolve/''"
| "spec_path (SendNotice d) = ''/notices/send/''"
| "spec_path (GetNotices i) = ''/notices/'' @ js_toString i @ ''/''"
| "spec_path GetMyPayments = ''/payments/my/''"
| "spec_path (MakePayment d) = ''/payments/make/''"
| "spec_path (RecordPayment d) = ''/payments/record/''"
| "spec_path (GetHostelPayments i) = ''/payments/hostel/'' @ js_toString i @ ''/''"
| "spec_path GetStudentDashboard = ''/dashboard/student/''"
| "spec_path GetOwnerDashboard = ''/dashboard/owner/''"
| "spec_path (GetHostelStats i) = ''/analytics/hostel/'' @ js_toString i @ ''/''"

text \<open>The payload argument of the call; null for a wrapper that takes none.\<close>

fun payload :: "wrapper_call \<Rightarrow> jsval" where
  "payload GetAllHostels = JNull"
| "payload (GetHostelDetail i) = JNull"
| "payload (AddHostel d) = d"
| "payload (UpdateHostel i d) = d"
| "payload GetMyHostels = JNull"
| "payload (GetHostelRooms i) = JNull"
| "payload (AddRoom d) = d"
| "payload (UpdateRoom i d) = d"
| "payload (BookHostel d) = d"
| "payload GetMyBookings = JNull"
| "payload (GetOwnerBookings i) = JNull"
| "payload (ApproveBooking i d) = d"
| "payload (RejectBooking i d) = d"
| "payload (ReportIssue d) = d"
| "payload (GetOwnerIssues i) = JNull"
| "payload (ResolveIssue i d) = d"
| "payload (SendNotice d) = d"
| "payload (GetNotices i) = JNull"
| "payload GetMyPayments = JNull"
| "payload (MakePayment d) = d"
| "payload (RecordPayment d) = d"
| "payload (GetHostelPayments i) = JNull"
| "payload GetStudentDashboard = JNull"
| "payload GetOwnerDashboard = JNull"
| "payload (GetHostelStats i) = JNull"

section \<open>Example pages\<close>

text \<open>A page just loaded with nothing in storage.\<close>

definition fresh_page :: state where
  "fresh_page =
     \<lparr> currentUser = JNull, authToken = JNull, localStorage = Map.empty,
       location_href = ''/index.html'', logoutBtn = Some ''Logout'',
       console = [], alerts = [], fetched = [] \<rparr>"

definition profile_a :: jsval where
  "profile_a = JObj [(''email'', JStr ''a@x.com'')]"

text \<open>A page on which the user of \<open>profile_a\<close> is signed in with token \<^verbatim>\<open>T0\<close>.\<close>

definition signed_in :: state where
  "signed_in =
     fresh_page\<lparr> currentUser := profile_a, authToken := JStr ''T0'',
       localStorage := [''access_token'' \<mapsto> ''T0'', ''user'' \<mapsto> ser profile_a] \<rparr>"

text \<open>The body \<^verbatim>\<open>{access:"T1", user:{email:"a@x.com"}}\<close> of a login response.\<close>

definition login_response :: jsval where
  "login_response = JObj [(''access'', JStr ''T1''), (''user'', profile_a)]"

text \<open>The error \<^verbatim>\<open>response.json()\<close> rejects with on a body that is not JSON.\<close>

definition body_not_json :: js_error where
  "body_not_json = JsError ''SyntaxError'' ''Unexpected end of JSON input''"

definition network_down :: js_error where
  "network_down = JsError ''TypeError'' ''Failed to fetch''"

text \<open>
  Storage as \<open>login\<close> leaves it when the response carries a token and no \<^verbatim>\<open>user\<close>: line 82
  stores the text \<^verbatim>\<open>undefined\<close>. The page itself is freshly loaded.
\<close>

definition stale_page :: state where
  "stale_page =
     fresh_page\<lparr> localStorage := [''access_token'' \<mapsto> ''T1'', ''user'' \<mapsto> ''undefined''] \<rparr>"

text \<open>
  The scenario of the specification: \<^verbatim>\<open>login("a@x.com","pw")\<close> on a fresh page, answered
  200 with \<open>login_response\<close>.
\<close>

definition after_login :: state where
  "after_login =
     snd (login (Responded 200 (Inr login_response)) (JStr ''a@x.com'') (JStr ''pw'') fresh_page)"

text \<open>
  The body \<^verbatim>\<open>{access:"T1"}\<close> of a login response that carries a token and no profile, and
  the page after \<^verbatim>\<open>login("a@x.com","pw")\<close> was answered 200 with it.
\<close>

definition token_only_response :: jsval where
  "token_only_response = JObj [(''access'', JStr ''T1'')]"

definition after_token_only_login :: state where
  "after_token_only_login =
     snd (login (Responded 200 (Inr token_only_response)) (JStr ''a@x.com'') (JStr ''pw'')
            fresh_page)"

text \<open>
  A page opened later on the storage the scenario's login left: nothing of that login's
  module variables, console or requests is there, only what was stored.
\<close>

definition reopened :: state where
  "reopened = fresh_page\<lparr> localStorage := localStorage after_login \<rparr>"

section \<open>Vocabulary of the claims\<close>

text \<open>
  The response that takes the branch of lines 40 to 44: its body parsed and its status
  is 401.
\<close>

definition unauthorized :: "fetch_result \<Rightarrow> bool" where
  "unauthorized fr = (case fr of Responded status (Inr result) \<Rightarrow> status = 401 | _ \<Rightarrow> False)"

text \<open>
  The token variable is null or truthy. It starts as null (line 7) and is assigned only
  null (line 89), a truthy stored token (line 14) or a truthy \<^verbatim>\<open>access\<close> (lines 65 and
  79), so the test of line 28 separates exactly "no token" from "a token".
\<close>

definition token_null_or_truthy :: "state \<Rightarrow> bool" where
  "token_null_or_truthy st = (authToken st = JNull \<or> truthy (authToken st))"

section \<open>Measures for reading JSON text back\<close>

text \<open>
  What can follow a value inside JSON text written by \<open>ser\<close>: the end of the text, a
  comma, or a closing bracket or brace.
\<close>

definition delimited :: "string \<Rightarrow> bool" where
  "delimited rest =
     (case rest of [] \<Rightarrow> True | c # cs \<Rightarrow> c = CHR '','' \<or> c = CHR '']'' \<or> c = CHR ''}'')"

text \<open>A bound on the depth of descent that reading a value back takes.\<close>

fun weight :: "jsval \<Rightarrow> nat"
  and weights :: "jsval list \<Rightarrow> nat"
  and weight_props :: "(string \<times> jsval) list \<Rightarrow> nat" where
  "weight (JArr xs) = Suc (weights xs)"
| "weight (JObj kvs) = Suc (weight_props kvs)"
| "weight v = 1"
| "weights [] = 0"
| "weights (x # xs) = Suc (weight x + weights xs)"
| "weight_props [] = 0"
| "weight_props ((k, v) # kvs) = Suc (weight v + weight_props kvs)"

text \<open>A character that can start a value: no white space, no closing bracket or brace.\<close>

definition opens_value :: "char \<Rightarrow> bool" where
  "opens_value c = (\<not> is_ws c \<and> c \<noteq> CHR '']'' \<and> c \<noteq> CHR ''}'')"

section \<open>The generic request function, case by case\<close>

lemma apiCall_Rejected:
  "apiCall (Rejected e) endpoint meth data st =
     (Normal JNull,
      st\<lparr>fetched := fetched st @
           [build_request endpoint meth (if data = JUndefined then JNull else data) st],
         console := console st @ [[LStr ''Fetch Error:'', LErr e]],
         alerts := alerts st @ [''Connection error: '' @ message e]\<rparr>)"
  by (simp add: apiCall_def apiCall_try_def Let_def)

lemma apiCall_unparsed:
  "apiCall (Responded status (Inl e)) endpoint meth data st =
     (Normal JNull,
      st\<lparr>fetched := fetched st @
           [build_request endpoint meth (if data = JUndefined then JNull else data) st],
         console := console st @ [[LStr ''Fetch Error:'', LErr e]],
         alerts := alerts st @ [''Connection error: '' @ message e]\<rparr>)"
  by (simp add: apiCall_def apiCall_try_def Let_def)

lemma apiCall_401:
  "apiCall (Responded 401 (Inr result)) endpoint meth data st =
     (Normal JNull,
      st\<lparr>fetched := fetched st @
           [build_request endpoint meth (if data = JUndefined then JNull else data) st],
         authToken := JNull, currentUser := JNull,
         localStorage := (localStorage st)(''access_token'' := None, ''user'' := None),
         location_href := ''/login.html''\<rparr>)"
  by (simp add: apiCall_def apiCall_try_def Let_def logoutUser_def removeItem_def)

lemma apiCall_error_status:
  "status \<noteq> 401 \<Longrightarrow> \<not> ok status \<Longrightarrow>
   apiCall (Responded status (Inr result)) endpoint meth data st =
     (Normal JNull,
      st\<lparr>fetched := fetched st @
           [build_request endpoint meth (if data = JUndefined then JNull else data) st],
         console := console st @ [[LStr ''API Error:'', LVal result]]\<rparr>)"
  by (simp add: apiCall_def apiCall_try_def Let_def)

lemma apiCall_success:
  "ok status \<Longrightarrow>
   apiCall (Responded status (Inr result)) endpoint meth data st =
     (Normal result,
      st\<lparr>fetched := fetched st @
           [build_request endpoint meth (if data = JUndefined then JNull else data) st]\<rparr>)"
  by (simp add: apiCall_def apiCall_try_def Let_def ok_def)

lemma apiCall_fetched:
  "fetched (snd (apiCall fr endpoint meth data st)) =
     fetched st @ [build_request endpoint meth (if data = JUndefined then JNull else data) st]"
  by (simp add: apiCall_def apiCall_try_def Let_def logoutUser_def removeItem_def
      split: fetch_result.split sum.split)

lemma apiCall_Normal: "\<exists>v. fst (apiCall fr endpoint meth data st) = Normal v"
  by (simp add: apiCall_def apiCall_try_def Let_def split: fetch_result.split sum.split)

lemma call_wrapper_apiCall:
  "call_wrapper fr c st = apiCall fr (spec_path c) (spec_method c) (payload c) st"
  by (cases c)
     (simp_all add: getAllHostels_def getHostelDetail_def addHostel_def updateHostel_def
        getMyHostels_def getHostelRooms_def addRoom_def updateRoom_def bookHostel_def
        getMyBookings_def getOwnerBookings_def approveBooking_def rejectBooking_def
        reportIssue_def getOwnerIssues_def resolveIssue_def sendNotice_def getNotices_def
        getMyPayments_def makePayment_def recordPayment_def getHostelPayments_def
        getStudentDashboard_def getOwnerDashboard_def getHostelStats_def)

section \<open>Claims about the generic request function\<close>

text \<open>
  C1, as stated, at a 401 response whose body is not JSON: \<^verbatim>\<open>response.json()\<close> rejects on
  line 38, before the status is looked at on line 40; the catch block answers null, and
  the session, the stored token and the location stay as they were.
\<close>

theorem apiCall_401_unparsed_keeps_session:
  "fst (apiCall (Responded 401 (Inl body_not_json)) ''/bookings/my/'' ''GET'' JNull signed_in)
     = Normal JNull
   \<and> authToken (snd (apiCall (Responded 401 (Inl body_not_json)) ''/bookings/my/'' ''GET'' JNull
        signed_in)) = JStr ''T0''
   \<and> localStorage (snd (apiCall (Responded 401 (Inl body_not_json)) ''/bookings/my/'' ''GET'' JNull
        signed_in)) ''access_token'' = Some ''T0''
   \<and> location_href (snd (apiCall (Responded 401 (Inl body_not_json)) ''/bookings/my/'' ''GET''
        JNull signed_in)) = ''/index.html''"
  by (simp add: apiCall_unparsed signed_in_def fresh_page_def)

text \<open>
  C1, amended: on a 401 response whose body parses as JSON, whatever the endpoint, the
  method and the payload, \<open>apiCall\<close> resolves to null, clears the token and the user in
  memory, removes both stored fields and sets the location to the login page, with
  nothing logged and no alert; every wrapper goes through the same call.
\<close>

theorem apiCall_401_parsed_clears_session:
  "fst (apiCall (Responded 401 (Inr result)) endpoint meth data st) = Normal JNull
   \<and> authToken (snd (apiCall (Responded 401 (Inr result)) endpoint meth data st)) = JNull
   \<and> currentUser (snd (apiCall (Responded 401 (Inr result)) endpoint meth data st)) = JNull
   \<and> localStorage (snd (apiCall (Responded 401 (Inr result)) endpoint meth data st))
        ''access_token'' = None
   \<and> localStorage (snd (apiCall (Responded 401 (Inr result)) endpoint meth data st))
        ''user'' = None
   \<and> location_href (snd (apiCall (Responded 401 (Inr result)) endpoint meth data st))
        = ''/login.html''
   \<and> console (snd (apiCall (Responded 401 (Inr result)) endpoint meth data st)) = console st
   \<and> alerts (snd (apiCall (Responded 401 (Inr result)) endpoint meth data st)) = alerts st
   \<and> call_wrapper (Responded 401 (Inr result)) c st
        = apiCall (Responded 401 (Inr result)) (spec_path c) (spec_method c) (payload c) st"
  by (simp add: apiCall_401 call_wrapper_apiCall)

text \<open>
  C2: when fetch rejects, \<open>apiCall\<close> resolves to null after one alert carrying the
  error's message and one console entry; and whatever fetch gives, \<open>apiCall\<close> never
  throws. The same holds through every wrapper.
\<close>

theorem apiCall_network_failure_resolves_null:
  "fst (apiCall (Rejected e) endpoint meth data st) = Normal JNull
   \<and> alerts (snd (apiCall (Rejected e) endpoint meth data st))
        = alerts st @ [''Connection error: '' @ message e]
   \<and> console (snd (apiCall (Rejected e) endpoint meth data st))
        = console st @ [[LStr ''Fetch Error:'', LErr e]]
   \<and> fst (apiCall fr endpoint meth data st) \<noteq> Throw x
   \<and> fst (call_wrapper (Rejected e) c st) = Normal JNull"
  using apiCall_Normal [of fr endpoint meth data st]
  by (auto simp add: apiCall_Rejected call_wrapper_apiCall)

lemma truthy_stringify: "truthy data \<Longrightarrow> JSON_stringify data = JStr (ser data)"
  by (cases data) (simp_all add: JSON_stringify_def)

text \<open>
  C3: the request handed to fetch always carries the Content-Type header; with no token
  held (the module variable is null) it carries no Authorization header; with a token
  held it carries \<^verbatim>\<open>Bearer\<close>, a blank and the token, which for a string token is the token
  character for character.
\<close>

theorem apiCall_authorization_header:
  "map_of (headers (last (fetched (snd (apiCall fr endpoint meth data st))))) ''Content-Type''
     = Some ''application/json''
   \<and> (authToken st = JNull \<longrightarrow>
        map_of (headers (last (fetched (snd (apiCall fr endpoint meth data st)))))
          ''Authorization'' = None)
   \<and> (truthy (authToken st) \<longrightarrow>
        map_of (headers (last (fetched (snd (apiCall fr endpoint meth data st)))))
          ''Authorization'' = Some (''Bearer '' @ js_toString (authToken st)))
   \<and> (authToken st = JStr t \<and> t \<noteq> [] \<longrightarrow>
        map_of (headers (last (fetched (snd (apiCall fr endpoint meth data st)))))
          ''Authorization'' = Some (''Bearer '' @ t))"
  by (simp add: apiCall_fetched build_request_def)

theorem apiCall_authorization_header_witness:
  "authToken fresh_page = JNull
   \<and> map_of (headers (last (fetched (snd (apiCall (Responded 200 (Inr JNull)) ''/hostels/''
        ''GET'' JNull fresh_page))))) ''Authorization'' = None
   \<and> authToken signed_in = JStr ''T0''
   \<and> map_of (headers (last (fetched (snd (apiCall (Responded 200 (Inr JNull)) ''/hostels/''
        ''GET'' JNull signed_in))))) ''Authorization'' = Some ''Bearer T0''"
  using apiCall_authorization_header
          [of "Responded 200 (Inr JNull)" "''/hostels/''" "''GET''" JNull fresh_page "''T0''"]
        apiCall_authorization_header
          [of "Responded 200 (Inr JNull)" "''/hostels/''" "''GET''" JNull signed_in "''T0''"]
  by (simp add: fresh_page_def signed_in_def)

text \<open>
  C6, as stated, at the payload 0: it is not null, and the request goes out without a
  body, because line 32 tests the payload for truthiness.
\<close>

theorem apiCall_falsy_body_omitted:
  "JNum 0 \<noteq> JNull
   \<and> body (last (fetched (snd (apiCall (Responded 200 (Inr JNull)) ''/hostels/add/'' ''POST''
        (JNum 0) fresh_page)))) = None"
  by (simp add: apiCall_fetched build_request_def)

text \<open>
  C6, amended: the request carries a body exactly when the payload is truthy (any
  object or array, a non-empty string, a nonzero number, true), and the body is then the
  JSON text of the payload; for null, undefined, false, 0 and the empty string there is
  no body.
\<close>

theorem apiCall_body_iff_truthy:
  "body (last (fetched (snd (apiCall fr endpoint meth data st))))
     = (if truthy data then Some (JStr (ser data)) else None)"
  by (cases data) (simp_all add: apiCall_fetched build_request_def JSON_stringify_def)

text \<open>
  The scenario of the specification: \<^verbatim>\<open>addHostel({name:"X"})\<close> on a fresh page sends a POST
  for \<^verbatim>\<open>/hostels/add/\<close> under the base path whose body is the twelve characters of the
  object's JSON text.
\<close>

lemma addHostel_scenario:
  "fetched (snd (addHostel fr (JObj [(''name'', JStr ''X'')]) fresh_page)) =
     [\<lparr>url = ''/api/hostels/add/'', http_method = ''POST'',
       headers = [(''Content-Type'', ''application/json'')],
       body = Some (JStr (CHR ''{'' # CHR 0x22 # ''name'' @ CHR 0x22 # CHR '':'' # CHR 0x22 #
                          ''X'' @ [CHR 0x22, CHR ''}'']))\<rparr>]"
  by (simp add: addHostel_def apiCall_fetched build_request_def API_BASE_def JSON_stringify_def
        quote_string_def quote_char_def fresh_page_def)

text \<open>
  C8, as stated, at a 502 response whose body is not JSON: no parsed body is logged.
  \<^verbatim>\<open>response.json()\<close> rejects on line 38, and the catch block logs the error under
  \<^verbatim>\<open>Fetch Error:\<close> and raises an alert before the call resolves to null.
\<close>

theorem apiCall_502_unparsed_logs_fetch_error:
  "\<not> ok 502 \<and> (502 :: nat) \<noteq> 401
   \<and> fst (apiCall (Responded 502 (Inl body_not_json)) ''/hostels/'' ''GET'' JNull fresh_page)
       = Normal JNull
   \<and> console (snd (apiCall (Responded 502 (Inl body_not_json)) ''/hostels/'' ''GET'' JNull
        fresh_page)) = [[LStr ''Fetch Error:'', LErr body_not_json]]
   \<and> alerts (snd (apiCall (Responded 502 (Inl body_not_json)) ''/hostels/'' ''GET'' JNull
        fresh_page)) = [''Connection error: Unexpected end of JSON input'']"
  by (simp add: apiCall_unparsed ok_def fresh_page_def body_not_json_def)

text \<open>
  C8, amended: on a response whose status is neither in 200 to 299 nor 401, \<open>apiCall\<close>
  resolves to null whatever the body. The body is parsed first: a body that is JSON is
  logged under \<^verbatim>\<open>API Error:\<close> with no alert, and a body that is not JSON sends the call
  through the catch block, which logs the error under \<^verbatim>\<open>Fetch Error:\<close> and raises the
  alert.
\<close>

theorem apiCall_error_status_logs_and_null:
  "\<not> ok status \<Longrightarrow> status \<noteq> 401 \<Longrightarrow>
   fst (apiCall (Responded status js) endpoint meth data st) = Normal JNull
   \<and> console (snd (apiCall (Responded status (Inr result)) endpoint meth data st))
        = console st @ [[LStr ''API Error:'', LVal result]]
   \<and> alerts (snd (apiCall (Responded status (Inr result)) endpoint meth data st)) = alerts st
   \<and> console (snd (apiCall (Responded status (Inl e)) endpoint meth data st))
        = console st @ [[LStr ''Fetch Error:'', LErr e]]
   \<and> alerts (snd (apiCall (Responded status (Inl e)) endpoint meth data st))
        = alerts st @ [''Connection error: '' @ message e]"
  by (cases js) (simp_all add: apiCall_error_status apiCall_unparsed)

theorem apiCall_error_status_logs_and_null_witness:
  "\<not> ok 404 \<and> (404 :: nat) \<noteq> 401
   \<and> fst (apiCall (Responded 404 (Inr (JObj [(''detail'', JStr ''Not found.'')])))
        ''/hostels/7/'' ''GET'' JNull signed_in) = Normal JNull
   \<and> console (snd (apiCall (Responded 404 (Inr (JObj [(''detail'', JStr ''Not found.'')])))
        ''/hostels/7/'' ''GET'' JNull signed_in))
        = [[LStr ''API Error:'', LVal (JObj [(''detail'', JStr ''Not found.'')])]]
   \<and> alerts (snd (apiCall (Responded 404 (Inr (JObj [(''detail'', JStr ''Not found.'')])))
        ''/hostels/7/'' ''GET'' JNull signed_in)) = []"
  using apiCall_error_status_logs_and_null
          [of 404 "Inr (JObj [(''detail'', JStr ''Not found.'')])" "''/hostels/7/''" "''GET''"
              JNull signed_in "JObj [(''detail'', JStr ''Not found.'')]" body_not_json]
  by (simp add: ok_def signed_in_def fresh_page_def)

text \<open>
  C10: unless the response is a 401 whose body parsed, \<open>apiCall\<close> leaves the token, the
  user and the whole of storage as they were: on success, on any other status, when
  fetch rejects and when the body is not JSON.
\<close>

theorem apiCall_frame:
  "\<not> unauthorized fr \<Longrightarrow>
   authToken (snd (apiCall fr endpoint meth data st)) = authToken st
   \<and> currentUser (snd (apiCall fr endpoint meth data st)) = currentUser st
   \<and> localStorage (snd (apiCall fr endpoint meth data st)) = localStorage st"
proof (cases fr)
  case (Rejected e)
  then show ?thesis by (simp add: apiCall_Rejected)
next
  case (Responded status js)
  assume inert: "\<not> unauthorized fr"
  show ?thesis
  proof (cases js)
    case (Inl e)
    with Responded show ?thesis by (simp add: apiCall_unparsed)
  next
    case (Inr result)
    with Responded inert have "status \<noteq> 401" by (simp add: unauthorized_def)
    with Responded Inr show ?thesis
      by (cases "ok status") (simp_all add: apiCall_success apiCall_error_status)
  qed
qed

theorem apiCall_frame_witness:
  "\<not> unauthorized (Responded 500 (Inr JNull))
   \<and> authToken (snd (apiCall (Responded 500 (Inr JNull)) ''/hostels/'' ''GET'' JNull signed_in))
        = JStr ''T0''
   \<and> currentUser (snd (apiCall (Responded 500 (Inr JNull)) ''/hostels/'' ''GET'' JNull
        signed_in)) = profile_a
   \<and> localStorage (snd (apiCall (Responded 500 (Inr JNull)) ''/hostels/'' ''GET'' JNull
        signed_in)) ''access_token'' = Some ''T0''"
  using apiCall_frame [of "Responded 500 (Inr JNull)" "''/hostels/''" "''GET''" JNull signed_in]
  by (simp add: unauthorized_def signed_in_def fresh_page_def)

section \<open>Claims about the wrappers\<close>

lemma truthy_get_prop: "truthy (get_prop result k) \<Longrightarrow> truthy result \<and> result \<noteq> JNull"
  by (cases result) simp_all

lemma truthy_iff_access:
  "(truthy result \<and> truthy (get_prop result ''access''))
     = (result \<noteq> JNull \<and> truthy (get_prop result ''access''))"
  using truthy_get_prop by blast

lemma login_after_apiCall:
  "apiCall fr ''/auth/login/'' ''POST'' (JObj [(''email'', email), (''password'', password)]) st
     = (Normal result, st1) \<Longrightarrow>
   login fr email password st =
     (if result \<noteq> JNull \<and> truthy (get_prop result ''access'')
      then (Normal (JBool True),
            st1\<lparr>authToken := get_prop result ''access'',
                currentUser := get_prop result ''user'',
                localStorage := (localStorage st1)
                  (''access_token'' \<mapsto> js_toString (get_prop result ''access''),
                   ''user'' \<mapsto> js_toString (JSON_stringify (get_prop result ''user'')))\<rparr>)
      else (Normal (JBool False), st1))"
  by (simp add: login_def Let_def setItem_def truthy_iff_access)

lemma register_after_apiCall:
  "apiCall fr ''/auth/register/'' ''POST''
     (JObj [(''email'', email), (''password'', password), (''name'', name), (''role'', role)]) st
     = (Normal result, st1) \<Longrightarrow>
   register fr email password name role st =
     (if result \<noteq> JNull \<and> truthy (get_prop result ''access'')
      then (Normal (JBool True),
            st1\<lparr>authToken := get_prop result ''access'',
                currentUser := get_prop result ''user'',
                localStorage := (localStorage st1)
                  (''access_token'' \<mapsto> js_toString (get_prop result ''access''),
                   ''user'' \<mapsto> js_toString (JSON_stringify (get_prop result ''user'')))\<rparr>)
      else (Normal (JBool False), st1))"
  by (simp add: register_def Let_def setItem_def truthy_iff_access)

lemma apiCall_resolves: "\<exists>result st1. apiCall fr endpoint meth data st = (Normal result, st1)"
  using apiCall_Normal [of fr endpoint meth data st]
  by (metis prod.collapse)

lemma apiCall_session_unchanged:
  "\<not> unauthorized fr \<Longrightarrow> apiCall fr endpoint meth data st = (r, st1) \<Longrightarrow>
   authToken st1 = authToken st \<and> currentUser st1 = currentUser st
   \<and> localStorage st1 = localStorage st"
  by (cases fr)
     (auto simp add: apiCall_def apiCall_try_def Let_def unauthorized_def
       split: sum.splits if_splits)

lemma login_fetched:
  "fetched (snd (login fr email password st)) =
     fetched st @ [build_request ''/auth/login/'' ''POST''
                     (JObj [(''email'', email), (''password'', password)]) st]"
proof -
  obtain result st1 where a:
    "apiCall fr ''/auth/login/'' ''POST'' (JObj [(''email'', email), (''password'', password)]) st
       = (Normal result, st1)"
    using apiCall_resolves by blast
  from a have "fetched st1 = fetched st @ [build_request ''/auth/login/'' ''POST''
                     (JObj [(''email'', email), (''password'', password)]) st]"
    using apiCall_fetched [of fr "''/auth/login/''" "''POST''"
            "JObj [(''email'', email), (''password'', password)]" st]
    by simp
  with login_after_apiCall [OF a] show ?thesis by simp
qed

lemma register_fetched:
  "fetched (snd (register fr email password name role st)) =
     fetched st @ [build_request ''/auth/register/'' ''POST''
       (JObj [(''email'', email), (''password'', password), (''name'', name), (''role'', role)])
       st]"
proof -
  obtain result st1 where a:
    "apiCall fr ''/auth/register/'' ''POST''
       (JObj [(''email'', email), (''password'', password), (''name'', name), (''role'', role)]) st
       = (Normal result, st1)"
    using apiCall_resolves by blast
  from a have "fetched st1 = fetched st @ [build_request ''/auth/register/'' ''POST''
       (JObj [(''email'', email), (''password'', password), (''name'', name), (''role'', role)])
       st]"
    using apiCall_fetched [of fr "''/auth/register/''" "''POST''"
       "JObj [(''email'', email), (''password'', password), (''name'', name), (''role'', role)]"
       st]
    by simp
  with register_after_apiCall [OF a] show ?thesis by simp
qed

text \<open>
  C9, as stated, at a login attempt made while signed in and answered 401 (with a JSON
  body): the result is false, and the token in memory and in storage is gone.
\<close>

theorem login_false_after_401_clears_session:
  "fst (login (Responded 401 (Inr (JObj [(''detail'', JStr ''No active account'')])))
          (JStr ''a@x.com'') (JStr ''wrong'') signed_in) = Normal (JBool False)
   \<and> authToken signed_in = JStr ''T0''
   \<and> authToken (snd (login (Responded 401 (Inr (JObj [(''detail'', JStr ''No active account'')])))
          (JStr ''a@x.com'') (JStr ''wrong'') signed_in)) = JNull
   \<and> localStorage signed_in ''access_token'' = Some ''T0''
   \<and> localStorage (snd (login (Responded 401 (Inr (JObj [(''detail'', JStr ''No active account'')])))
          (JStr ''a@x.com'') (JStr ''wrong'') signed_in)) ''access_token'' = None"
  by (simp add: login_after_apiCall [OF apiCall_401] signed_in_def fresh_page_def)

text \<open>
  C9, amended: \<open>login\<close> and \<open>register\<close> return a boolean, never the parsed body. It is
  true exactly when \<open>apiCall\<close> resolved to a non-null result whose \<^verbatim>\<open>access\<close> is truthy, and
  then the token, the user and both stored fields are set from the result. Otherwise it
  is false and the state is the one \<open>apiCall\<close> left, which differs from the one before
  the call in token, user or storage only when the response was a 401 with a parsed
  body. \<open>apiCall\<close> always resolves, so one of the two cases applies.
\<close>

theorem login_register_boolean:
  "(apiCall fr ''/auth/login/'' ''POST'' (JObj [(''email'', email), (''password'', password)]) st
      = (Normal result, st1) \<longrightarrow>
    login fr email password st =
      (if result \<noteq> JNull \<and> truthy (get_prop result ''access'')
       then (Normal (JBool True),
             st1\<lparr>authToken := get_prop result ''access'',
                       currentUser := get_prop result ''user'',
                       localStorage := (localStorage st1)
                         (''access_token'' \<mapsto> js_toString (get_prop result ''access''),
                          ''user'' \<mapsto> js_toString (JSON_stringify (get_prop result ''user'')))\<rparr>)
       else (Normal (JBool False), st1))
    \<and> (\<not> unauthorized fr \<longrightarrow>
         authToken st1 = authToken st \<and> currentUser st1 = currentUser st
         \<and> localStorage st1 = localStorage st))
   \<and> (apiCall fr ''/auth/register/'' ''POST''
        (JObj [(''email'', email), (''password'', password), (''name'', name), (''role'', role)])
        st = (Normal result', st1') \<longrightarrow>
    register fr email password name role st =
      (if result' \<noteq> JNull \<and> truthy (get_prop result' ''access'')
       then (Normal (JBool True),
             st1'\<lparr>authToken := get_prop result' ''access'',
                       currentUser := get_prop result' ''user'',
                       localStorage := (localStorage st1')
                         (''access_token'' \<mapsto> js_toString (get_prop result' ''access''),
                          ''user'' \<mapsto> js_toString (JSON_stringify (get_prop result' ''user'')))\<rparr>)
       else (Normal (JBool False), st1'))
    \<and> (\<not> unauthorized fr \<longrightarrow>
         authToken st1' = authToken st \<and> currentUser st1' = currentUser st
         \<and> localStorage st1' = localStorage st))
   \<and> (\<exists>v s. apiCall fr ''/auth/login/'' ''POST''
               (JObj [(''email'', email), (''password'', password)]) st = (Normal v, s))
   \<and> (\<exists>v s. apiCall fr ''/auth/register/'' ''POST''
               (JObj [(''email'', email), (''password'', password), (''name'', name),
                      (''role'', role)]) st = (Normal v, s))"
proof (intro conjI impI)
  assume "apiCall fr ''/auth/login/'' ''POST''
            (JObj [(''email'', email), (''password'', password)]) st = (Normal result, st1)"
  then show "login fr email password st =
      (if result \<noteq> JNull \<and> truthy (get_prop result ''access'')
       then (Normal (JBool True),
             st1\<lparr>authToken := get_prop result ''access'',
                       currentUser := get_prop result ''user'',
                       localStorage := (localStorage st1)
                         (''access_token'' \<mapsto> js_toString (get_prop result ''access''),
                          ''user'' \<mapsto> js_toString (JSON_stringify (get_prop result ''user'')))\<rparr>)
       else (Normal (JBool False), st1))"
    by (rule login_after_apiCall)
next
  assume "apiCall fr ''/auth/login/'' ''POST''
            (JObj [(''email'', email), (''password'', password)]) st = (Normal result, st1)"
    and "\<not> unauthorized fr"
  then have "authToken st1 = authToken st \<and> currentUser st1 = currentUser st
             \<and> localStorage st1 = localStorage st"
    using apiCall_session_unchanged by blast
  then show "authToken st1 = authToken st" and "currentUser st1 = currentUser st"
    and "localStorage st1 = localStorage st"
    by simp_all
next
  assume "apiCall fr ''/auth/register/'' ''POST''
        (JObj [(''email'', email), (''password'', password), (''name'', name), (''role'', role)])
        st = (Normal result', st1')"
  then show "register fr email password name role st =
      (if result' \<noteq> JNull \<and> truthy (get_prop result' ''access'')
       then (Normal (JBool True),
             st1'\<lparr>authToken := get_prop result' ''access'',
                       currentUser := get_prop result' ''user'',
                       localStorage := (localStorage st1')
                         (''access_token'' \<mapsto> js_toString (get_prop result' ''access''),
                          ''user'' \<mapsto> js_toString (JSON_stringify (get_prop result' ''user'')))\<rparr>)
       else (Normal (JBool False), st1'))"
    by (rule register_after_apiCall)
next
  assume "apiCall fr ''/auth/register/'' ''POST''
        (JObj [(''email'', email), (''password'', password), (''name'', name), (''role'', role)])
        st = (Normal result', st1')"
    and "\<not> unauthorized fr"
  then have "authToken st1' = authToken st \<and> currentUser st1' = currentUser st
             \<and> localStorage st1' = localStorage st"
    using apiCall_session_unchanged by blast
  then show "authToken st1' = authToken st" and "currentUser st1' = currentUser st"
    and "localStorage st1' = localStorage st"
    by simp_all
qed (rule apiCall_resolves)+

theorem login_register_boolean_witness:
  "fst (login (Responded 200 (Inr login_response)) (JStr ''a@x.com'') (JStr ''pw'') fresh_page)
     = Normal (JBool True)
   \<and> authToken (snd (login (Responded 200 (Inr login_response)) (JStr ''a@x.com'') (JStr ''pw'')
        fresh_page)) = JStr ''T1''
   \<and> localStorage (snd (login (Responded 200 (Inr login_response)) (JStr ''a@x.com'')
        (JStr ''pw'') fresh_page)) ''access_token'' = Some ''T1''
   \<and> fst (register (Responded 400 (Inr (JObj [(''email'', JArr [JStr ''taken''])])))
        (JStr ''a@x.com'') (JStr ''pw'') (JStr ''A'') (JStr ''student'') signed_in)
     = Normal (JBool False)
   \<and> authToken (snd (register (Responded 400 (Inr (JObj [(''email'', JArr [JStr ''taken''])])))
        (JStr ''a@x.com'') (JStr ''pw'') (JStr ''A'') (JStr ''student'') signed_in))
     = JStr ''T0''"
  using login_register_boolean
          [where fr = "Responded 200 (Inr login_response)" and email = "JStr ''a@x.com''"
             and password = "JStr ''pw''" and st = fresh_page and result = login_response
             and ?st1.0 = "fresh_page\<lparr>fetched := [build_request ''/auth/login/'' ''POST''
                 (JObj [(''email'', JStr ''a@x.com''), (''password'', JStr ''pw'')]) fresh_page]\<rparr>"]
        login_register_boolean
          [where fr = "Responded 400 (Inr (JObj [(''email'', JArr [JStr ''taken''])]))"
             and email = "JStr ''a@x.com''" and password = "JStr ''pw''" and name = "JStr ''A''"
             and role = "JStr ''student''" and st = signed_in and result' = JNull
             and ?st1' = "signed_in\<lparr>fetched := [build_request ''/auth/register/'' ''POST''
                 (JObj [(''email'', JStr ''a@x.com''), (''password'', JStr ''pw''),
                        (''name'', JStr ''A''), (''role'', JStr ''student'')]) signed_in],
                 console := [[LStr ''API Error:'',
                              LVal (JObj [(''email'', JArr [JStr ''taken''])])]]\<rparr>"]
  by (simp add: apiCall_success apiCall_error_status ok_def login_response_def fresh_page_def
        signed_in_def)

text \<open>
  C4, as stated, at \<open>login\<close> answered 200 with a token: \<open>apiCall\<close> resolves to the parsed
  body, \<open>login\<close> returns true instead and, unlike \<open>apiCall\<close>, stores the token.
\<close>

theorem login_not_pass_through:
  "fst (apiCall (Responded 200 (Inr login_response)) ''/auth/login/'' ''POST''
          (JObj [(''email'', JStr ''a@x.com''), (''password'', JStr ''pw'')]) fresh_page)
     = Normal login_response
   \<and> fst (login (Responded 200 (Inr login_response)) (JStr ''a@x.com'') (JStr ''pw'') fresh_page)
     = Normal (JBool True)
   \<and> Normal login_response \<noteq> Normal (JBool True)
   \<and> authToken (snd (apiCall (Responded 200 (Inr login_response)) ''/auth/login/'' ''POST''
          (JObj [(''email'', JStr ''a@x.com''), (''password'', JStr ''pw'')]) fresh_page)) = JNull
   \<and> authToken (snd (login (Responded 200 (Inr login_response)) (JStr ''a@x.com'') (JStr ''pw'')
          fresh_page)) = JStr ''T1''"
  by (simp add: login_after_apiCall [OF apiCall_success] apiCall_success ok_def
        login_response_def fresh_page_def)

text \<open>
  C4, amended: each of the 25 wrappers other than \<open>register\<close> and \<open>login\<close> is \<open>apiCall\<close> at
  the method and path the specification lists for it and at its own payload, so it
  returns what \<open>apiCall\<close> returns and hands fetch exactly one request: that method, the
  base path followed by that path, and the payload as JSON text when it is truthy.
  \<open>register\<close> and \<open>login\<close> also hand fetch exactly one request, a POST to their path with
  the object built from their arguments as body; what they return is settled under C9.
\<close>

theorem wrappers_pass_through:
  "call_wrapper fr c st = apiCall fr (spec_path c) (spec_method c) (payload c) st
   \<and> (\<exists>hs. fetched (snd (call_wrapper fr c st)) = fetched st @
         [\<lparr>url = ''/api'' @ spec_path c, http_method = spec_method c, headers = hs,
           body = (if truthy (payload c) then Some (JStr (ser (payload c))) else None)\<rparr>])
   \<and> (\<exists>hs. fetched (snd (login fr email password st)) = fetched st @
         [\<lparr>url = ''/api/auth/login/'', http_method = ''POST'', headers = hs,
           body = Some (JStr (ser (JObj [(''email'', email), (''password'', password)])))\<rparr>])
   \<and> (\<exists>hs. fetched (snd (register fr email password name role st)) = fetched st @
         [\<lparr>url = ''/api/auth/register/'', http_method = ''POST'', headers = hs,
           body = Some (JStr (ser (JObj [(''email'', email), (''password'', password),
                                         (''name'', name), (''role'', role)])))\<rparr>])"
proof (intro conjI)
  show "call_wrapper fr c st = apiCall fr (spec_path c) (spec_method c) (payload c) st"
    by (rule call_wrapper_apiCall)
next
  show "\<exists>hs. fetched (snd (call_wrapper fr c st)) = fetched st @
         [\<lparr>url = ''/api'' @ spec_path c, http_method = spec_method c, headers = hs,
           body = (if truthy (payload c) then Some (JStr (ser (payload c))) else None)\<rparr>]"
    by (cases "payload c")
       (simp_all add: call_wrapper_apiCall apiCall_fetched build_request_def API_BASE_def
          JSON_stringify_def)
next
  show "\<exists>hs. fetched (snd (login fr email password st)) = fetched st @
         [\<lparr>url = ''/api/auth/login/'', http_method = ''POST'', headers = hs,
           body = Some (JStr (ser (JObj [(''email'', email), (''password'', password)])))\<rparr>]"
    by (simp add: login_fetched build_request_def API_BASE_def JSON_stringify_def)
next
  show "\<exists>hs. fetched (snd (register fr email password name role st)) = fetched st @
         [\<lparr>url = ''/api/auth/register/'', http_method = ''POST'', headers = hs,
           body = Some (JStr (ser (JObj [(''email'', email), (''password'', password),
                                         (''name'', name), (''role'', role)])))\<rparr>]"
    by (simp add: register_fetched build_request_def API_BASE_def JSON_stringify_def)
qed

section \<open>Reading back what JSON.stringify wrote\<close>

subsection \<open>Digits\<close>

lemma digit_val_digit_char: "d < 10 \<Longrightarrow> digit_val (digit_char d) = Some d"
  by (simp add: digit_val_def digit_char_def)

lemma hex_val_hex_char: "d < 16 \<Longrightarrow> hex_val (hex_char d) = Some d"
  by (simp add: hex_val_def hex_char_def digit_char_def)

lemma digit_char_neq:
  "d < 10 \<Longrightarrow> digit_char d \<noteq> CHR ''-'' \<and> digit_char d \<noteq> CHR ''{'' \<and> digit_char d \<noteq> CHR ''[''
     \<and> digit_char d \<noteq> CHR 0x22 \<and> digit_char d \<noteq> CHR ''n'' \<and> digit_char d \<noteq> CHR ''t''
     \<and> digit_char d \<noteq> CHR ''f'' \<and> digit_char d \<noteq> CHR '']'' \<and> \<not> is_ws (digit_char d)"
  using digit_val_digit_char [of d]
  by (auto simp add: digit_val_def is_ws_def Let_def split: if_splits)

lemma show_nat_digits: "\<forall>c \<in> set (show_nat n). digit_val c \<noteq> None"
proof (induction n rule: show_nat.induct)
  case (1 n)
  show ?case
  proof (cases "n < 10")
    case True
    then show ?thesis by (simp add: show_nat.simps [of n] digit_val_digit_char)
  next
    case False
    with 1 show ?thesis
      by (simp add: show_nat.simps [of n] digit_val_digit_char)
  qed
qed

lemma read_digits_append:
  "\<forall>c \<in> set xs. digit_val c \<noteq> None \<Longrightarrow>
   read_digits (xs @ ys) acc = read_digits ys (fst (read_digits xs acc))"
  by (induction xs arbitrary: acc) auto

lemma read_digits_show_nat:
  "fst (read_digits (show_nat n) acc) = acc * 10 ^ length (show_nat n) + n"
proof (induction n arbitrary: acc rule: show_nat.induct)
  case (1 n)
  show ?case
  proof (cases "n < 10")
    case True
    then show ?thesis by (simp add: show_nat.simps [of n] digit_val_digit_char)
  next
    case False
    then have "show_nat n = show_nat (n div 10) @ [digit_char (n mod 10)]"
      by (simp add: show_nat.simps [of n])
    moreover have "fst (read_digits (show_nat (n div 10)) acc)
                     = acc * 10 ^ length (show_nat (n div 10)) + n div 10"
      using 1 False by simp
    ultimately show ?thesis
      by (simp add: read_digits_append show_nat_digits digit_val_digit_char algebra_simps)
  qed
qed

lemma show_nat_head: "0 < n \<Longrightarrow> \<exists>d ds. show_nat n = digit_char d # ds \<and> 0 < d \<and> d < 10"
proof (induction n rule: show_nat.induct)
  case (1 n)
  show ?case
  proof (cases "n < 10")
    case True
    with 1(2) have "show_nat n = digit_char n # [] \<and> 0 < n \<and> n < 10"
      by (simp add: show_nat.simps [of n])
    then show ?thesis by blast
  next
    case False
    then have "0 < n div 10" by simp
    with 1(1) False obtain d ds where "show_nat (n div 10) = digit_char d # ds" "0 < d" "d < 10"
      by blast
    with False show ?thesis by (auto simp add: show_nat.simps [of n])
  qed
qed

lemma delimited_Cons:
  "delimited (c # cs) \<Longrightarrow>
   digit_val c = None \<and> c \<noteq> CHR ''.'' \<and> c \<noteq> CHR ''e'' \<and> c \<noteq> CHR ''E'' \<and> \<not> is_ws c"
  by (auto simp add: delimited_def digit_val_def is_ws_def)

lemma read_digits_delimited: "delimited rest \<Longrightarrow> read_digits rest acc = (acc, rest)"
  using delimited_Cons by (cases rest) auto

lemma number_end_delimited: "delimited rest \<Longrightarrow> number_end n rest = POk n rest"
  by (cases rest) (auto simp add: delimited_def number_end_def)

lemma read_digits_show_nat_rest:
  "delimited rest \<Longrightarrow> read_digits (show_nat n @ rest) 0 = (n, rest)"
  by (simp add: read_digits_append show_nat_digits read_digits_show_nat read_digits_delimited)

lemma parse_nat_show_nat: "delimited rest \<Longrightarrow> parse_nat (show_nat n @ rest) = POk n rest"
proof (cases "n = 0")
  case True
  assume "delimited rest"
  then show ?thesis using True delimited_Cons
    by (cases rest)
       (auto simp add: show_nat.simps [of 0] parse_nat_def digit_val_digit_char
          number_end_delimited)
next
  case False
  assume d: "delimited rest"
  from False obtain d ds where h: "show_nat n = digit_char d # ds" "0 < d" "d < 10"
    using show_nat_head [of n] by auto
  from read_digits_show_nat_rest [OF d, of n] h
  have "read_digits (ds @ rest) d = (n, rest)"
    by (simp add: digit_val_digit_char)
  with h d show ?thesis
    by (simp add: parse_nat_def digit_val_digit_char number_end_delimited)
qed

lemma parse_number_show_int:
  "delimited rest \<Longrightarrow> parse_number (show_int i @ rest) = POk (JNum i) rest"
proof (cases "i < 0")
  case True
  assume "delimited rest"
  with True show ?thesis
    by (simp add: parse_number_def show_int_def parse_nat_show_nat pbind_def)
next
  case False
  assume d: "delimited rest"
  obtain c cs where h: "show_nat (nat i) = c # cs" "c \<noteq> CHR ''-''"
  proof (cases "nat i = 0")
    case True
    then show ?thesis using that [of "digit_char 0" "[]"] digit_char_neq [of 0]
      by (simp add: show_nat.simps [of 0])
  next
    case False
    then show ?thesis using show_nat_head [of "nat i"] that digit_char_neq by blast
  qed
  have "parse_nat ((c # cs) @ rest) = POk (nat i) rest"
    using parse_nat_show_nat [OF d, of "nat i"] h by simp
  with False h show ?thesis
    by (simp add: parse_number_def show_int_def pbind_def)
qed

subsection \<open>Strings\<close>

lemma hex_val_zero: "hex_val CHR ''0'' = Some 0"
  by (simp add: hex_val_def)

lemma of_char_less_256: "(of_char c :: nat) < 256"
  by (cases c) (simp add: of_char_def)

lemma parse_chars_control:
  assumes "(of_char c :: nat) < 32"
  shows "parse_chars (CHR 0x5C # CHR ''u'' # CHR ''0'' # CHR ''0'' #
           hex_char (of_char c div 16) # hex_char (of_char c mod 16) # after)
         = pcons c (parse_chars after)"
proof -
  have "hex_val (hex_char (of_char c div 16)) = Some (of_char c div 16)"
    using assms by (intro hex_val_hex_char) simp
  moreover have "hex_val (hex_char (of_char c mod 16)) = Some (of_char c mod 16)"
    by (intro hex_val_hex_char) simp
  moreover have "char_of (16 * (of_char c div 16) + of_char c mod 16 :: nat) = c"
    by simp
  ultimately show ?thesis
    by (simp add: hex_val_zero)
qed

lemma parse_chars_quote_char: "parse_chars (quote_char c @ after) = pcons c (parse_chars after)"
proof (cases "c = CHR 0x22 \<or> c = CHR 0x5C \<or> c = CHR 0x08 \<or> c = CHR 0x0C \<or> c = CHR 0x0A
              \<or> c = CHR 0x0D \<or> c = CHR 0x09")
  case True
  then show ?thesis
    by (auto simp add: quote_char_def unescape_def)
next
  case False
  show ?thesis
  proof (cases "(of_char c :: nat) < 32")
    case True
    with False show ?thesis
      using parse_chars_control [OF True, of after] by (simp add: quote_char_def)
  next
    case high: False
    with False show ?thesis by (simp add: quote_char_def)
  qed
qed

lemma parse_chars_quoted:
  "parse_chars (concat (map quote_char s) @ CHR 0x22 # rest) = POk s rest"
  by (induction s) (simp_all add: parse_chars_quote_char pcons_def pbind_def)

lemma parse_chars_quote_string:
  "quote_string s @ rest = CHR 0x22 # after \<Longrightarrow> parse_chars after = POk s rest"
  using parse_chars_quoted [of s rest] by (simp add: quote_string_def)

subsection \<open>Values\<close>

lemma define_prop_fresh: "k \<notin> fst ` set ps \<Longrightarrow> define_prop ps (k, v) = ps @ [(k, v)]"
  by (induction ps) auto

lemma foldl_define_prop:
  "distinct (map fst (acc @ kvs)) \<Longrightarrow> foldl define_prop acc kvs = acc @ kvs"
proof (induction kvs arbitrary: acc)
  case Nil
  then show ?case by simp
next
  case (Cons kv kvs)
  obtain k v where kv: "kv = (k, v)" by (cases kv)
  from Cons.prems kv have "k \<notin> fst ` set acc" by auto
  then have "define_prop acc kv = acc @ [kv]" using kv by (simp add: define_prop_fresh)
  moreover from Cons.prems have "distinct (map fst ((acc @ [kv]) @ kvs))" by simp
  ultimately show ?case using Cons.IH [of "acc @ [kv]"] by simp
qed

lemma mk_object_distinct: "distinct (map fst kvs) \<Longrightarrow> mk_object kvs = JObj kvs"
  using foldl_define_prop [of "[]" kvs] by (simp add: mk_object_def)

lemma show_nat_nonempty: "show_nat n \<noteq> []"
  by (subst show_nat.simps) simp

lemma digit_not_special:
  "digit_val c \<noteq> None \<Longrightarrow>
   c \<noteq> CHR ''-'' \<and> c \<noteq> CHR ''{'' \<and> c \<noteq> CHR ''['' \<and> c \<noteq> CHR 0x22 \<and> c \<noteq> CHR ''n''
   \<and> c \<noteq> CHR ''t'' \<and> c \<noteq> CHR ''f'' \<and> opens_value c"
  by (auto simp add: digit_val_def opens_value_def is_ws_def Let_def split: if_splits)

lemma show_int_head: "\<exists>c cs. show_int i = c # cs \<and> (c = CHR ''-'' \<or> digit_val c \<noteq> None)"
proof (cases "i < 0")
  case True
  then show ?thesis by (simp add: show_int_def)
next
  case False
  have "\<exists>c cs. show_nat (nat i) = c # cs \<and> digit_val c \<noteq> None"
    using show_nat_digits [of "nat i"] show_nat_nonempty [of "nat i"]
    by (cases "show_nat (nat i)") auto
  with False show ?thesis by (auto simp add: show_int_def)
qed

lemma skip_ws_opens: "opens_value c \<Longrightarrow> skip_ws (c # cs) = c # cs"
  by (simp add: opens_value_def)

declare skip_ws.simps(2) [simp del]

lemma skip_ws_delimiter:
  "skip_ws (CHR '','' # cs) = CHR '','' # cs" "skip_ws (CHR '']'' # cs) = CHR '']'' # cs"
  "skip_ws (CHR ''}'' # cs) = CHR ''}'' # cs" "skip_ws (CHR '':'' # cs) = CHR '':'' # cs"
  "skip_ws (CHR 0x22 # cs) = CHR 0x22 # cs" "skip_ws (CHR ''['' # cs) = CHR ''['' # cs"
  "skip_ws (CHR ''{'' # cs) = CHR ''{'' # cs" "skip_ws (CHR ''n'' # cs) = CHR ''n'' # cs"
  "skip_ws (CHR ''t'' # cs) = CHR ''t'' # cs" "skip_ws (CHR ''f'' # cs) = CHR ''f'' # cs"
  by (simp_all add: is_ws_def skip_ws.simps(2))

lemma ser_opens: "\<exists>c cs. ser v = c # cs \<and> opens_value c"
proof (cases v)
  case (JNum i)
  obtain c cs where h: "show_int i = c # cs" "c = CHR ''-'' \<or> digit_val c \<noteq> None"
    using show_int_head [of i] by blast
  have "opens_value c"
  proof (cases "c = CHR ''-''")
    case True
    then show ?thesis by (simp add: opens_value_def is_ws_def)
  next
    case False
    with h(2) show ?thesis using digit_not_special [of c] by simp
  qed
  with h(1) JNum show ?thesis by simp
next
  case (JStr s)
  then show ?thesis by (simp add: quote_string_def opens_value_def is_ws_def)
qed (auto simp add: opens_value_def is_ws_def)

lemma parse_value_number:
  assumes "show_int i = c # cs" and "c = CHR ''-'' \<or> digit_val c \<noteq> None"
  shows "parse_value (Suc n) (show_int i @ rest) = parse_number (show_int i @ rest)"
proof -
  have "opens_value c \<and> c \<noteq> CHR ''{'' \<and> c \<noteq> CHR ''['' \<and> c \<noteq> CHR 0x22
        \<and> c \<noteq> CHR ''n'' \<and> c \<noteq> CHR ''t'' \<and> c \<noteq> CHR ''f''"
  proof (cases "c = CHR ''-''")
    case True
    then show ?thesis by (simp add: opens_value_def is_ws_def)
  next
    case False
    with assms(2) show ?thesis using digit_not_special [of c] by simp
  qed
  then have "skip_ws (c # cs @ rest) = c # cs @ rest" and "c \<noteq> CHR ''{''" and "c \<noteq> CHR ''[''"
    and "c \<noteq> CHR 0x22" and "c \<noteq> CHR ''n''" and "c \<noteq> CHR ''t''" and "c \<noteq> CHR ''f''"
    by (simp_all add: skip_ws_opens)
  then show ?thesis using assms(1) by simp
qed

lemma parse_value_atom:
  "parse_value (Suc n) (ser JNull @ rest) = POk JNull rest"
  "parse_value (Suc n) (ser (JBool b) @ rest) = POk (JBool b) rest"
  "delimited rest \<Longrightarrow> parse_value (Suc n) (ser (JNum i) @ rest) = POk (JNum i) rest"
  "parse_value (Suc n) (ser (JStr s) @ rest) = POk (JStr s) rest"
proof -
  show "parse_value (Suc n) (ser JNull @ rest) = POk JNull rest"
    by (simp add: skip_ws_delimiter literal_def)
  show "parse_value (Suc n) (ser (JBool b) @ rest) = POk (JBool b) rest"
    by (simp add: skip_ws_delimiter literal_def)
  show "parse_value (Suc n) (ser (JStr s) @ rest) = POk (JStr s) rest"
    by (simp add: quote_string_def skip_ws_delimiter parse_chars_quoted pbind_def)
  assume "delimited rest"
  then show "parse_value (Suc n) (ser (JNum i) @ rest) = POk (JNum i) rest"
    using show_int_head [of i] parse_value_number [of i _ _ n rest]
    by (metis parse_number_show_int ser.simps(4))
qed

lemma join_comma_Cons: "ss \<noteq> [] \<Longrightarrow> join_comma (s # ss) = s @ CHR '','' # join_comma ss"
  by (cases ss) simp_all

lemma ser_elems_nonempty: "xs \<noteq> [] \<Longrightarrow> ser_elems xs \<noteq> []"
  by (cases xs) simp_all

lemma json_value_defined: "json_value v \<Longrightarrow> v \<noteq> JUndefined"
  by (cases v) simp_all

lemma ser_props_Cons:
  "json_value v \<Longrightarrow> ser_props ((k, v) # kvs) = (quote_string k @ CHR '':'' # ser v) # ser_props kvs"
  using json_value_defined [of v] by simp

lemma ser_props_nonempty: "json_props kvs \<Longrightarrow> kvs \<noteq> [] \<Longrightarrow> ser_props kvs \<noteq> []"
proof (cases kvs)
  case Nil
  assume "kvs \<noteq> []"
  with Nil show ?thesis by simp
next
  case (Cons kv kvs')
  assume "json_props kvs"
  with Cons show ?thesis by (cases kv) (simp add: ser_props_Cons del: ser_props.simps)
qed

lemma elems_open:
  assumes "xs \<noteq> []"
  shows "\<exists>c cs. join_comma (ser_elems xs) @ after = c # cs \<and> opens_value c"
proof -
  from assms obtain x xs' where xs: "xs = x # xs'" by (cases xs) auto
  obtain c cs where c: "ser x = c # cs" "opens_value c" using ser_opens by blast
  show ?thesis
  proof (cases "xs' = []")
    case True
    with xs c show ?thesis by simp
  next
    case False
    with xs c show ?thesis by (simp add: join_comma_Cons ser_elems_nonempty)
  qed
qed

lemma props_open:
  assumes "json_props kvs" and "kvs \<noteq> []"
  shows "\<exists>cs. join_comma (ser_props kvs) @ after = CHR 0x22 # cs"
proof -
  from assms obtain k v kvs' where kvs: "kvs = (k, v) # kvs'" by (cases kvs) auto
  with assms have v: "v \<noteq> JUndefined" and rest: "json_props kvs'"
    by (auto dest: json_value_defined)
  show ?thesis
  proof (cases "kvs' = []")
    case True
    with kvs v show ?thesis by (simp add: quote_string_def)
  next
    case False
    with kvs v rest show ?thesis
      by (simp add: join_comma_Cons ser_props_nonempty quote_string_def)
  qed
qed

lemma parse_elems_last:
  "parse_value n s = POk x (CHR '']'' # rest) \<Longrightarrow> parse_elems (Suc n) s = POk [x] rest"
  by (simp add: pbind_def skip_ws_delimiter)

lemma parse_elems_more:
  "parse_value n s = POk x (CHR '','' # s') \<Longrightarrow> parse_elems n s' = POk xs rest \<Longrightarrow>
   parse_elems (Suc n) s = POk (x # xs) rest"
  by (simp add: pbind_def skip_ws_delimiter)

lemma parse_members_last:
  "parse_chars cs = POk k (CHR '':'' # s1) \<Longrightarrow> parse_value n s1 = POk v (CHR ''}'' # rest) \<Longrightarrow>
   parse_members (Suc n) (CHR 0x22 # cs) = POk [(k, v)] rest"
  by (simp add: pbind_def skip_ws_delimiter)

lemma parse_members_more:
  "parse_chars cs = POk k (CHR '':'' # s1) \<Longrightarrow> parse_value n s1 = POk v (CHR '','' # s2) \<Longrightarrow>
   parse_members n s2 = POk kvs rest \<Longrightarrow>
   parse_members (Suc n) (CHR 0x22 # cs) = POk ((k, v) # kvs) rest"
  by (simp add: pbind_def skip_ws_delimiter)

lemma parse_value_array:
  assumes "xs \<noteq> []"
    and "parse_elems n (join_comma (ser_elems xs) @ CHR '']'' # rest) = POk xs rest"
  shows "parse_value (Suc n) (ser (JArr xs) @ rest) = POk (JArr xs) rest"
proof -
  obtain c cs where c: "join_comma (ser_elems xs) @ CHR '']'' # rest = c # cs" "opens_value c"
    using elems_open [OF assms(1)] by blast
  then have "c \<noteq> CHR '']''" by (simp add: opens_value_def)
  with c assms(2) show ?thesis
    by (simp add: skip_ws_delimiter skip_ws_opens pbind_def)
qed

lemma parse_value_object:
  assumes "kvs \<noteq> []" and "json_props kvs" and "distinct (map fst kvs)"
    and "parse_members n (join_comma (ser_props kvs) @ CHR ''}'' # rest) = POk kvs rest"
  shows "parse_value (Suc n) (ser (JObj kvs) @ rest) = POk (JObj kvs) rest"
proof -
  obtain cs where c: "join_comma (ser_props kvs) @ CHR ''}'' # rest = CHR 0x22 # cs"
    using props_open [OF assms(2,1)] by blast
  with assms(3,4) show ?thesis
    by (simp add: skip_ws_delimiter pbind_def mk_object_distinct)
qed

lemma parse_value_empty:
  "parse_value (Suc n) (ser (JArr []) @ rest) = POk (JArr []) rest"
  "parse_value (Suc n) (ser (JObj []) @ rest) = POk (JObj []) rest"
  by (simp_all add: skip_ws_delimiter)

lemma parse_ser:
  shows "json_value v \<Longrightarrow> delimited rest \<Longrightarrow> weight v \<le> n \<Longrightarrow>
         parse_value n (ser v @ rest) = POk v rest"
    and "json_values xs \<Longrightarrow> xs \<noteq> [] \<Longrightarrow> weights xs \<le> n \<Longrightarrow>
         parse_elems n (join_comma (ser_elems xs) @ CHR '']'' # rest) = POk xs rest"
    and "json_props kvs \<Longrightarrow> kvs \<noteq> [] \<Longrightarrow> weight_props kvs \<le> n \<Longrightarrow>
         parse_members n (join_comma (ser_props kvs) @ CHR ''}'' # rest) = POk kvs rest"
proof (induction v and xs and kvs arbitrary: n rest and n rest and n rest
       rule: json_value_json_values_json_props.induct)
  case 1
  then show ?case by simp
next
  case 2
  then obtain m where "n = Suc m" by (cases n) auto
  then show ?case by (simp only: parse_value_atom)
next
  case (3 b)
  then obtain m where "n = Suc m" by (cases n) auto
  then show ?case by (simp only: parse_value_atom)
next
  case (4 i)
  then obtain m where "n = Suc m" by (cases n) auto
  with 4 show ?case by (simp only: parse_value_atom)
next
  case (5 s)
  then obtain m where "n = Suc m" by (cases n) auto
  then show ?case by (simp only: parse_value_atom)
next
  case (6 xs)
  from 6(4) obtain m where n: "n = Suc m" and m: "weights xs \<le> m" by (cases n) auto
  show ?case
  proof (cases "xs = []")
    case True
    with n show ?thesis by (simp only: parse_value_empty)
  next
    case False
    from 6(2) have "json_values xs" by simp
    then have "parse_elems m (join_comma (ser_elems xs) @ CHR '']'' # rest) = POk xs rest"
      using False m by (rule 6(1))
    with False show ?thesis unfolding n by (rule parse_value_array)
  qed
next
  case (7 kvs)
  from 7(4) obtain m where n: "n = Suc m" and m: "weight_props kvs \<le> m" by (cases n) auto
  show ?case
  proof (cases "kvs = []")
    case True
    with n show ?thesis by (simp only: parse_value_empty)
  next
    case False
    from 7(2) have props: "json_props kvs" and keys: "distinct (map fst kvs)" by simp_all
    have "parse_members m (join_comma (ser_props kvs) @ CHR ''}'' # rest) = POk kvs rest"
      using props False m by (rule 7(1))
    with False props keys show ?thesis unfolding n by (rule parse_value_object)
  qed
next
  case 8
  then show ?case by simp
next
  case (9 x xs)
  from 9(5) obtain m where n: "n = Suc m" and mx: "weight x \<le> m" and mxs: "weights xs \<le> m"
    by (cases n) auto
  from 9(3) have x: "json_value x" and xs: "json_values xs" by simp_all
  show ?case
  proof (cases "xs = []")
    case True
    have "parse_value m (ser x @ CHR '']'' # rest) = POk x (CHR '']'' # rest)"
      using x _ mx by (rule 9(1)) (simp add: delimited_def)
    then show ?thesis using True n by (simp add: parse_elems_last del: parse_elems.simps)
  next
    case False
    let ?more = "join_comma (ser_elems xs) @ CHR '']'' # rest"
    have "parse_value m (ser x @ CHR '','' # ?more) = POk x (CHR '','' # ?more)"
      using x _ mx by (rule 9(1)) (simp add: delimited_def)
    moreover have "parse_elems m ?more = POk xs rest"
      using xs False mxs by (rule 9(2))
    ultimately have "parse_elems (Suc m) (ser x @ CHR '','' # ?more) = POk (x # xs) rest"
      by (rule parse_elems_more)
    with False n show ?thesis
      by (simp add: join_comma_Cons ser_elems_nonempty del: parse_elems.simps)
  qed
next
  case 10
  then show ?case by simp
next
  case (11 k v kvs)
  from 11(5) obtain m where n: "n = Suc m" and mv: "weight v \<le> m"
    and mkvs: "weight_props kvs \<le> m"
    by (cases n) auto
  from 11(3) have v: "json_value v" and kvs: "json_props kvs" by simp_all
  show ?case
  proof (cases "kvs = []")
    case True
    have "parse_value m (ser v @ CHR ''}'' # rest) = POk v (CHR ''}'' # rest)"
      using v _ mv by (rule 11(1)) (simp add: delimited_def)
    with parse_chars_quoted [of k "CHR '':'' # ser v @ CHR ''}'' # rest"]
    have "parse_members (Suc m)
            (CHR 0x22 # concat (map quote_char k) @ CHR 0x22 # CHR '':'' # ser v @ CHR ''}'' # rest)
          = POk [(k, v)] rest"
      by (rule parse_members_last)
    with True n v show ?thesis
      by (simp add: ser_props_Cons quote_string_def del: parse_members.simps ser_props.simps(2))
  next
    case False
    let ?more = "join_comma (ser_props kvs) @ CHR ''}'' # rest"
    have "parse_value m (ser v @ CHR '','' # ?more) = POk v (CHR '','' # ?more)"
      using v _ mv by (rule 11(1)) (simp add: delimited_def)
    moreover have "parse_members m ?more = POk kvs rest"
      using kvs False mkvs by (rule 11(2))
    ultimately have "parse_members (Suc m)
            (CHR 0x22 # concat (map quote_char k) @ CHR 0x22 # CHR '':'' # ser v @ CHR '','' # ?more)
          = POk ((k, v) # kvs) rest"
      using parse_chars_quoted [of k "CHR '':'' # ser v @ CHR '','' # ?more"]
            parse_members_more
      by blast
    with False n v kvs show ?thesis
      by (simp add: ser_props_Cons quote_string_def join_comma_Cons ser_props_nonempty
            del: parse_members.simps ser_props.simps(2))
  qed
qed

lemma show_int_nonempty: "show_int i \<noteq> []"
  using show_int_head [of i] by auto

lemma weight_le_length:
  shows "json_value v \<Longrightarrow> weight v \<le> length (ser v)"
    and "json_values xs \<Longrightarrow> weights xs \<le> Suc (length (join_comma (ser_elems xs)))"
    and "json_props kvs \<Longrightarrow> weight_props kvs \<le> Suc (length (join_comma (ser_props kvs)))"
proof (induction v and xs and kvs rule: json_value_json_values_json_props.induct)
  case (4 i)
  then show ?case using show_int_nonempty [of i] by (cases "show_int i") simp_all
next
  case (5 s)
  then show ?case by (simp add: quote_string_def)
next
  case (9 x xs)
  then show ?case by (cases "xs = []") (simp_all add: join_comma_Cons ser_elems_nonempty)
next
  case (11 k v kvs)
  then show ?case
    by (cases "kvs = []")
       (simp_all add: ser_props_Cons join_comma_Cons ser_props_nonempty quote_string_def
          del: ser_props.simps(2))
qed simp_all

text \<open>
  Reading back the JSON text of a value gives the value: \<^verbatim>\<open>JSON.parse(JSON.stringify(v))\<close>
  is \<open>v\<close> for every value \<open>v\<close> without undefined and without repeated property names.
\<close>

lemma JSON_parse_ser: "json_value v \<Longrightarrow> JSON_parse (ser v) = Inr v"
proof -
  assume v: "json_value v"
  have "weight v \<le> Suc (2 * length (ser v))"
    using weight_le_length(1) [OF v] by simp
  with v have "parse_value (Suc (2 * length (ser v))) (ser v @ []) = POk v []"
    by (intro parse_ser(1)) (simp_all add: delimited_def)
  then show ?thesis by (simp add: JSON_parse_def)
qed

lemma JSON_parse_stringify:
  "json_value v \<Longrightarrow> JSON_parse (js_toString (JSON_stringify v)) = Inr v"
  using json_value_defined [of v] by (simp add: JSON_stringify_def JSON_parse_ser)

section \<open>Claims about the session\<close>

lemma updateUIAfterLogin_frame:
  "authToken (updateUIAfterLogin st) = authToken st"
  "currentUser (updateUIAfterLogin st) = currentUser st"
  "localStorage (updateUIAfterLogin st) = localStorage st"
  "fetched (updateUIAfterLogin st) = fetched st"
  by (simp_all add: updateUIAfterLogin_def split: option.split)

lemma initAuth_absent:
  "localStorage st ''access_token'' = None \<or> localStorage st ''access_token'' = Some []
   \<or> localStorage st ''user'' = None \<or> localStorage st ''user'' = Some [] \<Longrightarrow>
   initAuth st = (Normal (), st)"
  by (auto simp add: initAuth_def getItem_def Let_def split: option.split)

lemma initAuth_parsed:
  "localStorage st ''access_token'' = Some token \<Longrightarrow> token \<noteq> [] \<Longrightarrow>
   localStorage st ''user'' = Some user \<Longrightarrow> user \<noteq> [] \<Longrightarrow> JSON_parse user = Inr v \<Longrightarrow>
   initAuth st = (Normal (), updateUIAfterLogin (st\<lparr>authToken := JStr token, currentUser := v\<rparr>))"
  by (simp add: initAuth_def getItem_def Let_def)

lemma initAuth_malformed:
  "localStorage st ''access_token'' = Some token \<Longrightarrow> token \<noteq> [] \<Longrightarrow>
   localStorage st ''user'' = Some user \<Longrightarrow> user \<noteq> [] \<Longrightarrow> JSON_parse user = Inl e \<Longrightarrow>
   initAuth st = (Throw e, st\<lparr>authToken := JStr token\<rparr>)"
  by (simp add: initAuth_def getItem_def Let_def)

lemma JSON_parse_undefined: "JSON_parse ''undefined'' = Inl syntax_error"
  by code_simp

text \<open>
  Where the text \<^verbatim>\<open>undefined\<close> in storage comes from: a login answered 200 with a token
  and no \<^verbatim>\<open>user\<close> property returns true and leaves exactly the storage of \<open>stale_page\<close>.
\<close>

lemma login_without_user:
  "fst (login (Responded 200 (Inr (JObj [(''access'', JStr ''T1'')]))) (JStr ''a@x.com'')
          (JStr ''pw'') fresh_page) = Normal (JBool True)
   \<and> localStorage (snd (login (Responded 200 (Inr (JObj [(''access'', JStr ''T1'')])))
          (JStr ''a@x.com'') (JStr ''pw'') fresh_page)) = localStorage stale_page"
  by (simp add: login_after_apiCall [OF apiCall_success] ok_def JSON_stringify_def
        fresh_page_def stale_page_def)

text \<open>
  C7, as stated, at a stored token with a stored profile that is not JSON: the call is
  no no-op. Line 14 has set the token when \<^verbatim>\<open>JSON.parse\<close> throws on line 15, and the
  SyntaxError leaves \<^verbatim>\<open>initAuth\<close>.
\<close>

theorem initAuth_malformed_user_sets_token:
  "authToken stale_page = JNull
   \<and> fst (initAuth stale_page) = Throw syntax_error
   \<and> authToken (snd (initAuth stale_page)) = JStr ''T1''"
  by (simp add: initAuth_malformed [where token = "''T1''" and user = "''undefined''"]
        JSON_parse_undefined stale_page_def fresh_page_def)

text \<open>
  C7, amended: \<^verbatim>\<open>initAuth\<close> is a no-op when either stored value is absent or empty. When
  both are present and not empty it sets the token; then, if the stored profile is valid
  JSON, it sets the user to the parsed profile and updates the logout control, and if
  the stored profile is not valid JSON the SyntaxError of \<^verbatim>\<open>JSON.parse\<close> leaves \<^verbatim>\<open>initAuth\<close>
  with the token set and the user untouched.
\<close>

theorem initAuth_cases:
  "(localStorage st ''access_token'' = None \<or> localStorage st ''access_token'' = Some []
    \<or> localStorage st ''user'' = None \<or> localStorage st ''user'' = Some [] \<longrightarrow>
      initAuth st = (Normal (), st))
   \<and> (localStorage st ''access_token'' = Some token \<and> token \<noteq> []
      \<and> localStorage st ''user'' = Some user \<and> user \<noteq> [] \<longrightarrow>
      (JSON_parse user = Inr v \<longrightarrow>
         initAuth st =
           (Normal (), updateUIAfterLogin (st\<lparr>authToken := JStr token, currentUser := v\<rparr>)))
      \<and> (JSON_parse user = Inl syntax_error \<longrightarrow>
         initAuth st = (Throw syntax_error, st\<lparr>authToken := JStr token\<rparr>)))"
  using initAuth_absent [of st] initAuth_parsed [of st token user v]
    initAuth_malformed [of st token user syntax_error]
  by blast

theorem initAuth_cases_witness:
  "initAuth fresh_page = (Normal (), fresh_page)
   \<and> fst (initAuth (signed_in\<lparr>authToken := JNull, currentUser := JNull\<rparr>)) = Normal ()
   \<and> authToken (snd (initAuth (signed_in\<lparr>authToken := JNull, currentUser := JNull\<rparr>)))
        = JStr ''T0''
   \<and> currentUser (snd (initAuth (signed_in\<lparr>authToken := JNull, currentUser := JNull\<rparr>)))
        = profile_a
   \<and> logoutBtn (snd (initAuth (signed_in\<lparr>authToken := JNull, currentUser := JNull\<rparr>)))
        = Some ''Logout (a@x.com)''
   \<and> fst (initAuth stale_page) = Throw syntax_error"
proof -
  have parsed: "JSON_parse (ser profile_a) = Inr profile_a"
    by (rule JSON_parse_ser) (simp add: profile_a_def)
  have nonempty: "ser profile_a \<noteq> []"
    by (simp add: profile_a_def)
  show ?thesis
    using initAuth_cases [of fresh_page "''''" "''''" JNull]
      initAuth_cases [of "signed_in\<lparr>authToken := JNull, currentUser := JNull\<rparr>" "''T0''"
        "ser profile_a" profile_a]
      initAuth_cases [of stale_page "''T1''" "''undefined''" JNull]
      parsed nonempty JSON_parse_undefined
    by (simp add: fresh_page_def signed_in_def stale_page_def updateUIAfterLogin_def
          profile_a_def del: ser.simps)
qed

lemma ser_nonempty: "ser v \<noteq> []"
  using ser_opens [of v] by auto

lemma stringify_json_value: "json_value u \<Longrightarrow> js_toString (JSON_stringify u) = ser u"
  using json_value_defined [of u] by (simp add: JSON_stringify_def)

lemma login_success:
  assumes "ok status" and "get_prop result ''access'' = JStr t" and "t \<noteq> []"
    and "json_value (get_prop result ''user'')"
  shows "login (Responded status (Inr result)) email password st =
     (Normal (JBool True),
      st\<lparr>fetched := fetched st @ [build_request ''/auth/login/'' ''POST''
                         (JObj [(''email'', email), (''password'', password)]) st],
         authToken := JStr t, currentUser := get_prop result ''user'',
         localStorage := (localStorage st)
           (''access_token'' \<mapsto> t, ''user'' \<mapsto> ser (get_prop result ''user''))\<rparr>)"
proof -
  have "truthy (get_prop result ''access'')" using assms(2,3) by simp
  then have "result \<noteq> JNull" using truthy_get_prop by blast
  then show ?thesis
    using assms login_after_apiCall [OF apiCall_success [OF assms(1)],
                                     where result = result and email = email
                                       and password = password and st = st]
    by (simp add: stringify_json_value)
qed

lemma register_success:
  assumes "ok status" and "get_prop result ''access'' = JStr t" and "t \<noteq> []"
    and "json_value (get_prop result ''user'')"
  shows "register (Responded status (Inr result)) email password name role st =
     (Normal (JBool True),
      st\<lparr>fetched := fetched st @ [build_request ''/auth/register/'' ''POST''
                         (JObj [(''email'', email), (''password'', password), (''name'', name),
                                (''role'', role)]) st],
         authToken := JStr t, currentUser := get_prop result ''user'',
         localStorage := (localStorage st)
           (''access_token'' \<mapsto> t, ''user'' \<mapsto> ser (get_prop result ''user''))\<rparr>)"
proof -
  have "truthy (get_prop result ''access'')" using assms(2,3) by simp
  then have "result \<noteq> JNull" using truthy_get_prop by blast
  then show ?thesis
    using assms register_after_apiCall [OF apiCall_success [OF assms(1)],
                                        where result = result and email = email
                                          and password = password and name = name
                                          and role = role and st = st]
    by (simp add: stringify_json_value)
qed

lemma page_load_restores:
  assumes "localStorage st ''access_token'' = Some t" and "t \<noteq> []"
    and "localStorage st ''user'' = Some (ser u)" and "json_value u"
  shows "fst (page_load btn st) = Normal ()"
    and "authToken (snd (page_load btn st)) = JStr t"
    and "currentUser (snd (page_load btn st)) = u"
    and "localStorage (snd (page_load btn st)) = localStorage st"
    and "fetched (snd (page_load btn st)) = fetched st"
proof -
  let ?st0 = "st\<lparr>currentUser := JNull, authToken := JNull, logoutBtn := btn\<rparr>"
  have "initAuth ?st0 =
          (Normal (), updateUIAfterLogin (?st0\<lparr>authToken := JStr t, currentUser := u\<rparr>))"
    using assms initAuth_parsed [where st = ?st0 and token = t and user = "ser u" and v = u]
    by (simp add: ser_nonempty JSON_parse_ser)
  then show "fst (page_load btn st) = Normal ()"
    and "authToken (snd (page_load btn st)) = JStr t"
    and "currentUser (snd (page_load btn st)) = u"
    and "localStorage (snd (page_load btn st)) = localStorage st"
    and "fetched (snd (page_load btn st)) = fetched st"
    by (simp_all add: page_load_def updateUIAfterLogin_frame)
qed

lemma getMyBookings_request:
  "authToken st = JStr t \<Longrightarrow> t \<noteq> [] \<Longrightarrow>
   last (fetched (snd (getMyBookings fr st))) =
     \<lparr>url = ''/api/bookings/my/'', http_method = ''GET'',
      headers = [(''Content-Type'', ''application/json''), (''Authorization'', ''Bearer '' @ t)],
      body = None\<rparr>"
  by (simp add: getMyBookings_def apiCall_fetched build_request_def API_BASE_def)

lemma after_token_only_login_eq:
  "login (Responded 200 (Inr token_only_response)) (JStr ''a@x.com'') (JStr ''pw'') fresh_page =
     (Normal (JBool True),
      fresh_page\<lparr>fetched := [build_request ''/auth/login/'' ''POST''
                    (JObj [(''email'', JStr ''a@x.com''), (''password'', JStr ''pw'')]) fresh_page],
        authToken := JStr ''T1'', currentUser := JUndefined,
        localStorage := [''access_token'' \<mapsto> ''T1'', ''user'' \<mapsto> ''undefined'']\<rparr>)"
  by (simp add: login_after_apiCall [OF apiCall_success] ok_def JSON_stringify_def
        token_only_response_def fresh_page_def)

text \<open>
  C5, as stated, at a login answered 200 with a token and no profile: \<open>login\<close> returns
  true with the token in the session and the text \<^verbatim>\<open>undefined\<close> stored as the profile
  (line 82), and the next page load does not restore the session: \<^verbatim>\<open>JSON.parse\<close> throws
  out of \<^verbatim>\<open>initAuth\<close> and the user stays null.
\<close>

theorem login_token_only_reload_throws:
  "fst (login (Responded 200 (Inr token_only_response)) (JStr ''a@x.com'') (JStr ''pw'')
          fresh_page) = Normal (JBool True)
   \<and> authToken after_token_only_login = JStr ''T1''
   \<and> currentUser after_token_only_login = JUndefined
   \<and> localStorage after_token_only_login ''user'' = Some ''undefined''
   \<and> fst (page_load (Some ''Logout'') after_token_only_login) = Throw syntax_error
   \<and> currentUser (snd (page_load (Some ''Logout'') after_token_only_login)) = JNull"
  by (simp add: after_token_only_login_def after_token_only_login_eq page_load_def
        initAuth_malformed [where token = "''T1''" and user = "''undefined''"]
        JSON_parse_undefined)

text \<open>
  C5, amended: let a login or a register be answered with a status from 200 to 299 and
  a body whose \<^verbatim>\<open>access\<close> is a non-empty string \<open>t\<close> and whose \<^verbatim>\<open>user\<close> is a JSON value.
  Then the call returns true, the session holds \<open>t\<close> and that profile, and storage holds
  \<open>t\<close> and the profile's JSON text. Loading a page on any state \<open>st'\<close> that has this
  storage, whatever its module variables hold, ends normally with \<open>t\<close> and the same
  profile in the session and storage as it was: the session comes back from storage
  alone. \<^verbatim>\<open>getMyBookings\<close>, after the login and after such a page load, sends a GET for
  the bookings path under the base path with the header \<^verbatim>\<open>Authorization: Bearer\<close> \<open>t\<close> and
  no body.
\<close>

theorem login_reload_roundtrip:
  "ok status \<Longrightarrow> get_prop result ''access'' = JStr t \<Longrightarrow> t \<noteq> [] \<Longrightarrow>
   json_value (get_prop result ''user'') \<Longrightarrow>
   r = login (Responded status (Inr result)) email password st
   \<or> r = register (Responded status (Inr result)) email password name role st \<Longrightarrow>
   localStorage st' = localStorage (snd r) \<Longrightarrow>
   fst r = Normal (JBool True)
   \<and> authToken (snd r) = JStr t
   \<and> currentUser (snd r) = get_prop result ''user''
   \<and> localStorage (snd r) ''access_token'' = Some t
   \<and> localStorage (snd r) ''user'' = Some (ser (get_prop result ''user''))
   \<and> fst (page_load btn st') = Normal ()
   \<and> authToken (snd (page_load btn st')) = JStr t
   \<and> currentUser (snd (page_load btn st')) = get_prop result ''user''
   \<and> localStorage (snd (page_load btn st')) = localStorage (snd r)
   \<and> last (fetched (snd (getMyBookings fr (snd r)))) =
         \<lparr>url = ''/api/bookings/my/'', http_method = ''GET'',
           headers = [(''Content-Type'', ''application/json''),
                      (''Authorization'', ''Bearer '' @ t)],
           body = None\<rparr>
   \<and> last (fetched (snd (getMyBookings fr (snd (page_load btn st'))))) =
         \<lparr>url = ''/api/bookings/my/'', http_method = ''GET'',
           headers = [(''Content-Type'', ''application/json''),
                      (''Authorization'', ''Bearer '' @ t)],
           body = None\<rparr>"
proof -
  assume status: "ok status" and access: "get_prop result ''access'' = JStr t" "t \<noteq> []"
    and user: "json_value (get_prop result ''user'')"
    and r: "r = login (Responded status (Inr result)) email password st
            \<or> r = register (Responded status (Inr result)) email password name role st"
    and same: "localStorage st' = localStorage (snd r)"
  let ?u = "get_prop result ''user''"
  from r have stored:
    "fst r = Normal (JBool True) \<and> authToken (snd r) = JStr t \<and> currentUser (snd r) = ?u
     \<and> localStorage (snd r) ''access_token'' = Some t
     \<and> localStorage (snd r) ''user'' = Some (ser ?u)"
  proof
    assume "r = login (Responded status (Inr result)) email password st"
    then show ?thesis by (simp add: login_success [OF status access user])
  next
    assume "r = register (Responded status (Inr result)) email password name role st"
    then show ?thesis by (simp add: register_success [OF status access user])
  qed
  with same have token: "localStorage st' ''access_token'' = Some t"
    and profile: "localStorage st' ''user'' = Some (ser ?u)"
    by simp_all
  note reload = page_load_restores [OF token access(2) profile user, of btn]
  have "last (fetched (snd (getMyBookings fr (snd r)))) =
         \<lparr>url = ''/api/bookings/my/'', http_method = ''GET'',
           headers = [(''Content-Type'', ''application/json''),
                      (''Authorization'', ''Bearer '' @ t)],
           body = None\<rparr>"
    using stored access(2) by (intro getMyBookings_request) simp_all
  moreover have "last (fetched (snd (getMyBookings fr (snd (page_load btn st'))))) =
         \<lparr>url = ''/api/bookings/my/'', http_method = ''GET'',
           headers = [(''Content-Type'', ''application/json''),
                      (''Authorization'', ''Bearer '' @ t)],
           body = None\<rparr>"
    using reload(2) access(2) by (rule getMyBookings_request)
  ultimately show ?thesis using stored reload(1,2,3,4) same by simp
qed

theorem login_reload_roundtrip_witness:
  "authToken after_login = JStr ''T1''
   \<and> currentUser after_login = profile_a
   \<and> localStorage after_login ''access_token'' = Some ''T1''
   \<and> authToken reopened = JNull
   \<and> currentUser reopened = JNull
   \<and> fst (page_load (Some ''Logout'') reopened) = Normal ()
   \<and> authToken (snd (page_load (Some ''Logout'') reopened)) = JStr ''T1''
   \<and> currentUser (snd (page_load (Some ''Logout'') reopened)) = profile_a
   \<and> last (fetched (snd (getMyBookings (Responded 200 (Inr (JArr [])))
        (snd (page_load (Some ''Logout'') reopened))))) =
         \<lparr>url = ''/api/bookings/my/'', http_method = ''GET'',
           headers = [(''Content-Type'', ''application/json''),
                      (''Authorization'', ''Bearer T1'')],
           body = None\<rparr>"
  using login_reload_roundtrip
          [where status = 200 and result = login_response and t = "''T1''"
             and r = "login (Responded 200 (Inr login_response)) (JStr ''a@x.com'') (JStr ''pw'')
                        fresh_page"
             and email = "JStr ''a@x.com''" and password = "JStr ''pw''" and st = fresh_page
             and st' = reopened
             and btn = "Some ''Logout''" and fr = "Responded 200 (Inr (JArr []))"]
  by (simp add: after_login_def reopened_def ok_def login_response_def profile_a_def
        fresh_page_def del: ser.simps)

section \<open>The token is null or truthy\<close>

lemma logoutUser_token: "token_null_or_truthy (logoutUser st)"
  by (simp add: token_null_or_truthy_def logoutUser_def removeItem_def)

lemma apiCall_token:
  "token_null_or_truthy st \<Longrightarrow> token_null_or_truthy (snd (apiCall fr endpoint meth data st))"
  by (cases fr)
     (auto simp add: token_null_or_truthy_def apiCall_def apiCall_try_def Let_def logoutUser_def
        removeItem_def split: sum.splits)

lemma call_wrapper_token:
  "token_null_or_truthy st \<Longrightarrow> token_null_or_truthy (snd (call_wrapper fr c st))"
  by (simp add: call_wrapper_apiCall apiCall_token)

lemma login_token:
  "token_null_or_truthy st \<Longrightarrow> token_null_or_truthy (snd (login fr email password st))"
proof -
  assume wf: "token_null_or_truthy st"
  obtain result st1 where a:
    "apiCall fr ''/auth/login/'' ''POST'' (JObj [(''email'', email), (''password'', password)]) st
       = (Normal result, st1)"
    using apiCall_resolves by blast
  with apiCall_token [OF wf, of fr "''/auth/login/''" "''POST''"
         "JObj [(''email'', email), (''password'', password)]"]
  have "token_null_or_truthy st1" by simp
  then show ?thesis
    by (simp add: login_after_apiCall [OF a] token_null_or_truthy_def)
qed

lemma register_token:
  "token_null_or_truthy st \<Longrightarrow>
   token_null_or_truthy (snd (register fr email password name role st))"
proof -
  assume wf: "token_null_or_truthy st"
  obtain result st1 where a:
    "apiCall fr ''/auth/register/'' ''POST''
       (JObj [(''email'', email), (''password'', password), (''name'', name), (''role'', role)]) st
       = (Normal result, st1)"
    using apiCall_resolves by blast
  with apiCall_token [OF wf, of fr "''/auth/register/''" "''POST''"
         "JObj [(''email'', email), (''password'', password), (''name'', name), (''role'', role)]"]
  have "token_null_or_truthy st1" by simp
  then show ?thesis
    by (simp add: register_after_apiCall [OF a] token_null_or_truthy_def)
qed

lemma initAuth_token:
  "token_null_or_truthy st \<Longrightarrow> token_null_or_truthy (snd (initAuth st))"
  by (auto simp add: token_null_or_truthy_def initAuth_def Let_def updateUIAfterLogin_frame
        split: sum.splits)

lemma page_load_token: "token_null_or_truthy (snd (page_load btn st))"
proof -
  have "token_null_or_truthy (st\<lparr>currentUser := JNull, authToken := JNull, logoutBtn := btn\<rparr>)"
    by (simp add: token_null_or_truthy_def)
  then show ?thesis unfolding page_load_def by (rule initAuth_token)
qed

text \<open>On such a state the header is absent exactly when the token variable is null.\<close>

lemma authorization_absent_iff_null:
  "token_null_or_truthy st \<Longrightarrow>
   (map_of (headers (build_request endpoint meth data st)) ''Authorization'' = None)
     = (authToken st = JNull)"
  by (auto simp add: token_null_or_truthy_def build_request_def)

end
